theory Spec2Isabelle
  imports Main
begin

section \<open>Data model (file.service.ts)\<close>

text \<open>
  The enum \<^verbatim>\<open>FileStatus\<close> and the interface \<^verbatim>\<open>FileRecord\<close>. The timestamp is the
  value of \<^verbatim>\<open>Date.now()\<close>, a count of milliseconds.
\<close>

datatype FileStatus = Pending | Completed | Failed | Expired

record FileRecord =
  fileKey :: string
  fileName :: string
  status :: FileStatus
  timestamp :: nat

type_synonym path = string
type_synonym bytes = string

section \<open>The world the services act on\<close>

text \<open>
  Every call the services make to the file system or to the chat platform is written to a
  trace, in the order the code awaits them, together with whether it succeeded.
\<close>

datatype resource_type = RImage | RFile

text \<open>
  The texts sent to the chat are templates filled with a file name or an error message;
  one constructor stands for each template of feishu.service.ts.
\<close>

datatype reply_text =
    AckReceived string
  | DownloadedOk string
  | DownloadFailed string string
  | NotFoundOrExpired string
  | Hello "string option"
  | UnexpectedError string

datatype io =
    FsRename path path bool
  | FsWriteData bool
  | FsReadData bool
  | FsUnlink path bool
  | FsWriteTemp path bool
  | FsReadStream path bool
  | FetchResource string string resource_type bool
  | SendReply string reply_text bool

text \<open>
  One record holds the fields of both services and the part of the machine they share:
  \<^item> \<open>files\<close> is \<^verbatim>\<open>FileService.files\<close>, the in-memory array;
  \<^item> \<open>data_file\<close> is the content of \<^verbatim>\<open>FILE_DATA_FILE\<close> as \<^verbatim>\<open>JSON.parse\<close> reads it back
    (\<open>None\<close>: the file is absent or does not parse); it is kept apart from the blobs;
  \<^item> \<open>fsys\<close> is the rest of the file system, a map from paths to contents;
  \<^item> \<open>FILE_MEDIA_DIR\<close> and \<open>TEMP_DIR\<close> are the read-only fields the constructors set;
  \<^item> \<open>processedEvents\<close> is the \<^verbatim>\<open>Set\<close> of \<^verbatim>\<open>FeishuService\<close>, and \<open>timers\<close> the pending
    \<^verbatim>\<open>setTimeout\<close> callbacks, each with the time it is due and the id it deletes.
\<close>

record app =
  files :: "FileRecord list"
  data_file :: "FileRecord list option"
  fsys :: "path \<rightharpoonup> bytes"
  FILE_MEDIA_DIR :: path
  TEMP_DIR :: path
  processedEvents :: "string set"
  timers :: "(nat \<times> string) list"
  trace :: "io list"

text \<open>
  What the environment does to the file-system calls of one operation: a set flag makes
  the call fail for a reason the state does not show (permissions, a full disk, a busy
  file). A call on a missing path fails without any flag.
\<close>

record faults =
  rename_fault :: bool
  write_fault :: bool
  read_fault :: bool
  unlink_fault :: bool
  stream_fault :: bool

definition log_io :: "io \<Rightarrow> app \<Rightarrow> app" where
  "log_io e st = st\<lparr>trace := trace st @ [e]\<rparr>"

text \<open>
  \<^verbatim>\<open>path.join(dir, name)\<close> of Node for a name that is one plain segment; the
  normalisation of \<^verbatim>\<open>.\<close>, \<^verbatim>\<open>..\<close> and repeated separators is not modelled.
\<close>

definition path_join :: "path \<Rightarrow> string \<Rightarrow> path" where
  "path_join dir name = dir @ ''/'' @ name"

text \<open>
  \<^verbatim>\<open>fs.rename\<close>: fails when the source is missing, replaces the destination otherwise.
  \<^verbatim>\<open>fs.unlink\<close>: fails when the path is missing. The boolean is False where the promise
  rejects.
\<close>

definition fs_rename :: "faults \<Rightarrow> path \<Rightarrow> path \<Rightarrow> app \<Rightarrow> bool \<times> app" where
  "fs_rename fl src dst st =
     (case fsys st src of
        None \<Rightarrow> (False, log_io (FsRename src dst False) st)
      | Some b \<Rightarrow>
          if rename_fault fl then (False, log_io (FsRename src dst False) st)
          else (True, log_io (FsRename src dst True)
                        (st\<lparr>fsys := ((fsys st)(src := None))(dst \<mapsto> b)\<rparr>)))"

definition fs_unlink :: "faults \<Rightarrow> path \<Rightarrow> app \<Rightarrow> bool \<times> app" where
  "fs_unlink fl p st =
     (case fsys st p of
        None \<Rightarrow> (False, log_io (FsUnlink p False) st)
      | Some b \<Rightarrow>
          if unlink_fault fl then (False, log_io (FsUnlink p False) st)
          else (True, log_io (FsUnlink p True) (st\<lparr>fsys := (fsys st)(p := None)\<rparr>)))"

section \<open>FileService (file.service.ts)\<close>

text \<open>
  \<^verbatim>\<open>saveState\<close> writes the whole array and catches every error of the write; a write
  that fails is taken to leave the file as it was. \<^verbatim>\<open>loadState\<close> replaces the array by
  what the file holds and keeps the array when the read or the parse fails.
\<close>

definition saveState :: "faults \<Rightarrow> app \<Rightarrow> app" where
  "saveState fl st =
     (if write_fault fl then log_io (FsWriteData False) st
      else log_io (FsWriteData True) (st\<lparr>data_file := Some (files st)\<rparr>))"

definition loadState :: "faults \<Rightarrow> app \<Rightarrow> app" where
  "loadState fl st =
     (if read_fault fl then log_io (FsReadData False) st
      else (case data_file st of
              None \<Rightarrow> log_io (FsReadData False) st
            | Some rs \<Rightarrow> log_io (FsReadData True) (st\<lparr>files := rs\<rparr>)))"

text \<open>
  \<^verbatim>\<open>addFile\<close>. The generated UUID and the clock are parameters. The method returns
  \<^verbatim>\<open>Promise<void>\<close>; its only \<^verbatim>\<open>catch\<close> logs and falls through, so the promise resolves on
  both paths, which the result \<open>Inr ()\<close> records.
\<close>

datatype http_error = NotFoundException string | InternalServerErrorException string

definition addFile ::
  "faults \<Rightarrow> string \<Rightarrow> nat \<Rightarrow> path \<Rightarrow> string \<Rightarrow> app \<Rightarrow> (http_error + unit) \<times> app" where
  "addFile fl uuid now sourceFilePath originalFileName st =
     (let localFileKey = uuid;
          localFileName = (if originalFileName = [] then localFileKey else originalFileName);
          destinationFilePath = path_join (FILE_MEDIA_DIR st) localFileName;
          newRecord = \<lparr>fileKey = localFileKey, fileName = localFileName,
                       status = Pending, timestamp = now\<rparr>
      in case fs_rename fl sourceFilePath destinationFilePath st of
           (False, st1) \<Rightarrow> (Inr (), st1)
         | (True, st1) \<Rightarrow> (Inr (), saveState fl (st1\<lparr>files := files st1 @ [newRecord]\<rparr>)))"

definition getPendingFiles :: "faults \<Rightarrow> app \<Rightarrow> FileRecord list \<times> app" where
  "getPendingFiles fl st =
     (let st1 = loadState fl st
      in (filter (\<lambda>file. status file = Pending) (files st1), st1))"

definition getFilePath :: "string \<Rightarrow> app \<Rightarrow> path option" where
  "getFilePath k st =
     (case find (\<lambda>f. fileKey f = k) (files st) of
        None \<Rightarrow> None
      | Some file \<Rightarrow> Some (path_join (FILE_MEDIA_DIR st) (fileName file)))"

text \<open>
  \<^verbatim>\<open>file.status = status\<close> writes through the reference \<^verbatim>\<open>find\<close> returned: the first
  record of the array with that key changes, in place.
\<close>

fun assign_status :: "string \<Rightarrow> FileStatus \<Rightarrow> FileRecord list \<Rightarrow> FileRecord list" where
  "assign_status k s [] = []"
| "assign_status k s (f # fs) =
     (if fileKey f = k then f\<lparr>status := s\<rparr> # fs else f # assign_status k s fs)"

definition updateFileStatus :: "faults \<Rightarrow> string \<Rightarrow> FileStatus \<Rightarrow> app \<Rightarrow> bool \<times> app" where
  "updateFileStatus fl k s st =
     (case find (\<lambda>f. fileKey f = k) (files st) of
        None \<Rightarrow> (False, st)
      | Some file \<Rightarrow>
          (let st1 = saveState fl (st\<lparr>files := assign_status k s (files st)\<rparr>)
           in if s = Completed \<or> s = Failed then
                (case getFilePath k st1 of
                   None \<Rightarrow> (True, st1)
                 | Some filePath \<Rightarrow> (True, snd (fs_unlink fl filePath st1)))
              else (True, st1)))"

section \<open>FileController (file.controller.ts)\<close>

text \<open>
  The exceptions the controller throws. \<open>NotFoundException\<close> carries the key its message
  quotes, \<open>InternalServerErrorException\<close> its message (without the text of the system
  error that \<^verbatim>\<open>downloadFile\<close> appends).
\<close>

definition downloadFile :: "faults \<Rightarrow> string \<Rightarrow> app \<Rightarrow> (http_error + bytes) \<times> app" where
  "downloadFile fl k st =
     (case getFilePath k st of
        None \<Rightarrow> (Inl (NotFoundException k), st)
      | Some filePath \<Rightarrow>
          (case fsys st filePath of
             None \<Rightarrow>
               (Inl (InternalServerErrorException ''Failed to read file from disk.''),
                log_io (FsReadStream filePath False) st)
           | Some b \<Rightarrow>
               if stream_fault fl then
                 (Inl (InternalServerErrorException ''Failed to read file from disk.''),
                  log_io (FsReadStream filePath False) st)
               else (Inr b, log_io (FsReadStream filePath True) st)))"

text \<open>
  The body of the status request: either field may be missing. \<^verbatim>\<open>!body.fileKey\<close> holds
  for a missing key and for the empty string; every value of the enum is a non-empty
  string, so \<^verbatim>\<open>!body.status\<close> holds for a missing status only.
\<close>

record status_body =
  body_fileKey :: "string option"
  body_status :: "FileStatus option"

fun falsy :: "string option \<Rightarrow> bool" where
  "falsy None = True"
| "falsy (Some s) = (s = [])"

definition updateStatus ::
  "faults \<Rightarrow> status_body \<Rightarrow> app \<Rightarrow> (http_error + string \<times> FileStatus) \<times> app" where
  "updateStatus fl body st =
     (if falsy (body_fileKey body) \<or> body_status body = None then
        (Inl (InternalServerErrorException
                ''Invalid request body. Missing fileKey or status.''), st)
      else
        (case (body_fileKey body, body_status body) of
           (Some k, Some s) \<Rightarrow>
             (case updateFileStatus fl k s st of
                (False, st1) \<Rightarrow> (Inl (NotFoundException k), st1)
              | (True, st1) \<Rightarrow> (Inr (k, s), st1))
         | _ \<Rightarrow>
             (Inl (InternalServerErrorException
                     ''Invalid request body. Missing fileKey or status.''), st)))"

section \<open>FeishuService (feishu.service.ts)\<close>

text \<open>
  An inbound \<^verbatim>\<open>im.message.receive_v1\<close> event. Its content is a JSON text: \<open>Malformed m\<close>
  stands for a text on which \<^verbatim>\<open>JSON.parse\<close> or the reading of its fields throws an error
  with message \<open>m\<close>, \<open>Parsed\<close> for the fields the handler reads.
\<close>

record parsed_content =
  image_key :: "string option"
  file_key :: "string option"
  file_name :: "string option"
  text_field :: "string option"

datatype content = Malformed string | Parsed parsed_content

record event =
  chat_id :: string
  message_id :: string
  message_type :: string
  content :: content
  event_id :: "string option"

text \<open>
  What the chat platform answers during one delivery: the outcome of
  \<^verbatim>\<open>messageResource.get\<close> (the bytes, or an error with its message and HTTP status), the
  error of \<^verbatim>\<open>response.writeFile\<close> if it fails, and the error of \<^verbatim>\<open>message.create\<close> if
  sending fails.
\<close>

datatype fetch_result = FetchOk bytes | FetchError string "nat option"

record platform =
  fetch_outcome :: fetch_result
  temp_write_error :: "string option"
  send_error :: "string option"

definition EVENT_EXPIRY_MS :: nat where
  "EVENT_EXPIRY_MS = 10 * 60 * 1000"

text \<open>
  \<^verbatim>\<open>isEventProcessed\<close> at time \<open>now\<close>: the \<^verbatim>\<open>setTimeout\<close> it starts is a new pending
  timer, due \<open>EVENT_EXPIRY_MS\<close> later.
\<close>

definition isEventProcessed :: "nat \<Rightarrow> string \<Rightarrow> app \<Rightarrow> bool \<times> app" where
  "isEventProcessed now eventId st =
     (if eventId \<in> processedEvents st then (True, st)
      else (False, st\<lparr>processedEvents := insert eventId (processedEvents st),
                       timers := timers st @ [(now + EVENT_EXPIRY_MS, eventId)]\<rparr>))"

text \<open>
  The event loop: before a callback runs at time \<open>now\<close>, every timer due by then has
  fired, deleting its id from the set.
\<close>

definition run_timers :: "nat \<Rightarrow> app \<Rightarrow> app" where
  "run_timers now st =
     st\<lparr>processedEvents :=
          processedEvents st - snd ` set (filter (\<lambda>t. fst t \<le> now) (timers st)),
        timers := filter (\<lambda>t. now < fst t) (timers st)\<rparr>"

text \<open>
  \<^verbatim>\<open>replyToUser\<close> catches the error of the send; the direct \<^verbatim>\<open>message.create\<close> of the
  handler does not, and \<open>send_message\<close> returns it.
\<close>

definition replyToUser :: "platform \<Rightarrow> string \<Rightarrow> reply_text \<Rightarrow> app \<Rightarrow> app" where
  "replyToUser env chat txt st = log_io (SendReply chat txt (send_error env = None)) st"

definition send_message :: "platform \<Rightarrow> string \<Rightarrow> reply_text \<Rightarrow> app \<Rightarrow> string option \<times> app" where
  "send_message env chat txt st =
     (send_error env, log_io (SendReply chat txt (send_error env = None)) st)"

definition download_error_text :: "string \<Rightarrow> string \<Rightarrow> nat option \<Rightarrow> reply_text" where
  "download_error_text fName m code =
     (if code = Some 404 then NotFoundOrExpired fName else DownloadFailed fName m)"

definition processFileMessage ::
  "platform \<Rightarrow> string \<Rightarrow> string \<Rightarrow> string \<Rightarrow> string \<Rightarrow> resource_type \<Rightarrow> app \<Rightarrow> app" where
  "processFileMessage env chat msg fKey fName resourceType st =
     (let st1 = replyToUser env chat (AckReceived fName) st
      in case fetch_outcome env of
           FetchError m code \<Rightarrow>
             replyToUser env chat (download_error_text fName m code)
               (log_io (FetchResource msg fKey resourceType False) st1)
         | FetchOk b \<Rightarrow>
             (let st2 = log_io (FetchResource msg fKey resourceType True) st1;
                  localFilePath = path_join (TEMP_DIR st2) fName
              in case temp_write_error env of
                   Some m \<Rightarrow>
                     replyToUser env chat (download_error_text fName m None)
                       (log_io (FsWriteTemp localFilePath False) st2)
                 | None \<Rightarrow>
                     replyToUser env chat (DownloadedOk fName)
                       (log_io (FsWriteTemp localFilePath True)
                          (st2\<lparr>fsys := (fsys st2)(localFilePath \<mapsto> b)\<rparr>))))"

text \<open>\<^verbatim>\<open>a || b\<close> on an optional string: \<open>b\<close> when \<open>a\<close> is missing or empty.\<close>

fun or_else :: "string option \<Rightarrow> string \<Rightarrow> string" where
  "or_else None d = d"
| "or_else (Some s) d = (if s = [] then d else s)"

text \<open>
  The \<^verbatim>\<open>try\<close> block of the handler: the message of the error it throws, if any, and the
  state it leaves.
\<close>

definition handler_try :: "platform \<Rightarrow> event \<Rightarrow> app \<Rightarrow> string option \<times> app" where
  "handler_try env ev st =
     (case content ev of
        Malformed m \<Rightarrow> (Some m, st)
      | Parsed parsedContent \<Rightarrow>
          if message_type ev = ''image'' then
            (if falsy (image_key parsedContent) then
               (Some ''Image key is missing in the message content.'', st)
             else
               (let fKey = or_else (image_key parsedContent) [];
                    fName = or_else (file_name parsedContent) (fKey @ ''.jpg'')
                in (None, processFileMessage env (chat_id ev) (message_id ev)
                            fKey fName RImage st)))
          else if message_type ev = ''media'' then
            (if falsy (file_key parsedContent) then
               (Some ''Media file key is missing in the message content.'', st)
             else
               (let fKey = or_else (file_key parsedContent) [];
                    fName = or_else (file_name parsedContent) (fKey @ ''.mp4'')
                in (None, processFileMessage env (chat_id ev) (message_id ev)
                            fKey fName RFile st)))
          else if message_type ev = ''file'' then
            (if falsy (file_key parsedContent) then
               (Some ''File key is missing in the message content.'', st)
             else
               (let fKey = or_else (file_key parsedContent) [];
                    fName = or_else (file_name parsedContent) fKey
                in (None, processFileMessage env (chat_id ev) (message_id ev)
                            fKey fName RFile st)))
          else send_message env (chat_id ev) (Hello (text_field parsedContent)) st)"

text \<open>
  The handler after the duplicate check: the \<^verbatim>\<open>try\<close> block and its \<^verbatim>\<open>catch\<close>, which
  sends the error to the chat. The boolean is False where the handler's promise rejects
  (the send of the \<^verbatim>\<open>catch\<close> itself fails).
\<close>

definition handler_body :: "platform \<Rightarrow> event \<Rightarrow> app \<Rightarrow> bool \<times> app" where
  "handler_body env ev st =
     (case handler_try env ev st of
        (None, st1) \<Rightarrow> (True, st1)
      | (Some m, st1) \<Rightarrow>
          (case send_message env (chat_id ev) (UnexpectedError m) st1 of
             (None, st2) \<Rightarrow> (True, st2)
           | (Some e, st2) \<Rightarrow> (False, st2)))"

text \<open>
  The handler registered by \<^verbatim>\<open>startWsClient\<close>:
  \<^verbatim>\<open>if (event_id && this.isEventProcessed(event_id)) return;\<close> calls the check only for a
  present, non-empty id.
\<close>

definition on_message :: "platform \<Rightarrow> nat \<Rightarrow> event \<Rightarrow> app \<Rightarrow> bool \<times> app" where
  "on_message env now ev st =
     (if falsy (event_id ev) then handler_body env ev st
      else (case isEventProcessed now (or_else (event_id ev) []) st of
              (True, st1) \<Rightarrow> (True, st1)
            | (False, st1) \<Rightarrow> handler_body env ev st1))"

text \<open>A delivery at time \<open>now\<close>: the due timers fire, then the handler runs.\<close>

definition deliver :: "platform \<Rightarrow> nat \<Rightarrow> event \<Rightarrow> app \<Rightarrow> bool \<times> app" where
  "deliver env now ev st = on_message env now ev (run_timers now st)"

section \<open>Observations on traces and states\<close>

text \<open>
  The number of resource fetches and of sent replies in a trace; the events for which the
  handler reaches \<^verbatim>\<open>processFileMessage\<close>; and the relation between the set of processed
  events and the pending timers that holds in every state the service reaches.
\<close>

fun is_fetch :: "io \<Rightarrow> bool" where
  "is_fetch (FetchResource m k t ok) = True"
| "is_fetch e = False"

fun is_reply :: "io \<Rightarrow> bool" where
  "is_reply (SendReply c t ok) = True"
| "is_reply e = False"

definition fetches :: "io list \<Rightarrow> nat" where
  "fetches tr = length (filter is_fetch tr)"

definition replies :: "io list \<Rightarrow> nat" where
  "replies tr = length (filter is_reply tr)"

definition file_bearing :: "event \<Rightarrow> bool" where
  "file_bearing ev =
     (case content ev of
        Malformed m \<Rightarrow> False
      | Parsed parsedContent \<Rightarrow>
          if message_type ev = ''image'' then \<not> falsy (image_key parsedContent)
          else if message_type ev = ''media'' \<or> message_type ev = ''file''
               then \<not> falsy (file_key parsedContent)
          else False)"

definition timers_match :: "app \<Rightarrow> bool" where
  "timers_match st =
     (distinct (map snd (timers st)) \<and> snd ` set (timers st) = processedEvents st)"

text \<open>
  A run is a list of deliveries, each with the platform's answers, its time and its event.
  \<open>effects\<close> is what one delivery appends to the trace, \<open>effects_of e\<close> what the deliveries
  carrying the event id \<open>e\<close> append in a run. \<open>seen_until e d\<close> says that \<open>e\<close> is in the set
  and its one pending timer is due at \<open>d\<close>; \<open>unseen e\<close> that it is neither in the set nor
  waited for by a timer.
\<close>

type_synonym delivery = "platform \<times> nat \<times> event"

fun run :: "delivery list \<Rightarrow> app \<Rightarrow> app" where
  "run [] st = st"
| "run ((env, now, ev) # ds) st = run ds (snd (deliver env now ev st))"

definition effects :: "platform \<Rightarrow> nat \<Rightarrow> event \<Rightarrow> app \<Rightarrow> io list" where
  "effects env now ev st = drop (length (trace st)) (trace (snd (deliver env now ev st)))"

fun effects_of :: "string \<Rightarrow> delivery list \<Rightarrow> app \<Rightarrow> io list" where
  "effects_of e [] st = []"
| "effects_of e ((env, now, ev) # ds) st =
     (if event_id ev = Some e then effects env now ev st else []) @
     effects_of e ds (snd (deliver env now ev st))"

definition seen_until :: "string \<Rightarrow> nat \<Rightarrow> app \<Rightarrow> bool" where
  "seen_until e d st =
     (e \<in> processedEvents st \<and> filter (\<lambda>t. snd t = e) (timers st) = [(d, e)])"

definition unseen :: "string \<Rightarrow> app \<Rightarrow> bool" where
  "unseen e st = (e \<notin> processedEvents st \<and> filter (\<lambda>t. snd t = e) (timers st) = [])"

section \<open>Concrete inputs\<close>

text \<open>A store with one pending record and its blob, and an environment with no fault.\<close>

definition demo_record :: FileRecord where
  "demo_record = \<lparr>fileKey = ''k1'', fileName = ''photo.jpg'', status = Pending, timestamp = 1\<rparr>"

definition demo_app :: app where
  "demo_app = \<lparr>files = [demo_record], data_file = Some [demo_record],
                fsys = [''media/photo.jpg'' \<mapsto> ''JPEG''],
                FILE_MEDIA_DIR = ''media'', TEMP_DIR = ''temp_uploads'',
                processedEvents = {}, timers = [], trace = []\<rparr>"

definition no_faults :: faults where
  "no_faults = \<lparr>rename_fault = False, write_fault = False, read_fault = False,
                 unlink_fault = False, stream_fault = False\<rparr>"

text \<open>The same store with a file staged in the temporary directory.\<close>

definition demo_staged :: app where
  "demo_staged = demo_app\<lparr>fsys := (fsys demo_app)(''temp_uploads/cat.png'' \<mapsto> ''PNG'')\<rparr>"

text \<open>The store with two files staged in the temporary directory.\<close>

definition demo_two_staged :: app where
  "demo_two_staged =
     demo_app\<lparr>fsys := [''temp_uploads/a'' \<mapsto> ''AAA'', ''temp_uploads/b'' \<mapsto> ''BBB'']\<rparr>"

text \<open>An image event, a platform that serves it, and the state of a fresh start.\<close>

definition demo_event :: event where
  "demo_event =
     \<lparr>chat_id = ''chat1'', message_id = ''msg1'', message_type = ''image'',
      content = Parsed \<lparr>image_key = Some ''abc123'', file_key = None,
                        file_name = Some ''photo.jpg'', text_field = None\<rparr>,
      event_id = Some ''ev1''\<rparr>"

definition demo_platform :: platform where
  "demo_platform = \<lparr>fetch_outcome = FetchOk ''JPEG'', temp_write_error = None, send_error = None\<rparr>"

definition demo_fresh :: app where
  "demo_fresh = \<lparr>files = [], data_file = None, fsys = Map.empty,
                  FILE_MEDIA_DIR = ''media'', TEMP_DIR = ''temp_uploads'',
                  processedEvents = {}, timers = [], trace = []\<rparr>"

text \<open>A second event, with another id.\<close>

definition demo_other :: event where
  "demo_other = demo_event\<lparr>message_id := ''msg2'', event_id := Some ''ev2''\<rparr>"

section \<open>Basic facts\<close>

lemma trace_log_io [simp]: "trace (log_io e st) = trace st @ [e]"
  and files_log_io [simp]: "files (log_io e st) = files st"
  and data_file_log_io [simp]: "data_file (log_io e st) = data_file st"
  and fsys_log_io [simp]: "fsys (log_io e st) = fsys st"
  and media_log_io [simp]: "FILE_MEDIA_DIR (log_io e st) = FILE_MEDIA_DIR st"
  and temp_log_io [simp]: "TEMP_DIR (log_io e st) = TEMP_DIR st"
  and processed_log_io [simp]: "processedEvents (log_io e st) = processedEvents st"
  and timers_log_io [simp]: "timers (log_io e st) = timers st"
  by (simp_all add: log_io_def)

lemma find_assign_status:
  "find (\<lambda>f. fileKey f = k) (assign_status k s fs) =
     map_option (\<lambda>f. f\<lparr>status := s\<rparr>) (find (\<lambda>f. fileKey f = k) fs)"
  by (induction fs) simp_all

lemma map_fileKey_assign_status [simp]:
  "map fileKey (assign_status k s fs) = map fileKey fs"
  by (induction fs) simp_all

lemma find_distinct_key:
  "distinct (map fileKey fs) \<Longrightarrow> r \<in> set fs \<Longrightarrow> find (\<lambda>f. fileKey f = fileKey r) fs = Some r"
  by (induction fs) (auto simp: image_iff)

lemma files_saveState [simp]: "files (saveState fl st) = files st"
  and fsys_saveState [simp]: "fsys (saveState fl st) = fsys st"
  and media_saveState [simp]: "FILE_MEDIA_DIR (saveState fl st) = FILE_MEDIA_DIR st"
  and trace_saveState [simp]:
    "trace (saveState fl st) = trace st @ [FsWriteData (\<not> write_fault fl)]"
  and data_file_saveState [simp]:
    "data_file (saveState fl st) = (if write_fault fl then data_file st else Some (files st))"
  by (simp_all add: saveState_def)

lemma files_fs_unlink [simp]: "files (snd (fs_unlink fl p st)) = files st"
  and data_file_fs_unlink [simp]: "data_file (snd (fs_unlink fl p st)) = data_file st"
  and media_fs_unlink [simp]: "FILE_MEDIA_DIR (snd (fs_unlink fl p st)) = FILE_MEDIA_DIR st"
  by (simp_all add: fs_unlink_def split: option.splits)

lemma fsys_fs_unlink:
  "fsys (snd (fs_unlink fl p st)) =
     (if unlink_fault fl then fsys st else (fsys st)(p := None))"
  by (auto simp: fs_unlink_def split: option.splits)

lemma trace_fs_unlink:
  "trace (snd (fs_unlink fl p st)) =
     trace st @ [FsUnlink p (fsys st p \<noteq> None \<and> \<not> unlink_fault fl)]"
  by (simp add: fs_unlink_def split: option.splits)

lemma getFilePath_found:
  "find (\<lambda>f. fileKey f = k) (files st) = Some r \<Longrightarrow>
   getFilePath k st = Some (path_join (FILE_MEDIA_DIR st) (fileName r))"
  by (simp add: getFilePath_def)

lemma updateFileStatus_found:
  assumes "find (\<lambda>f. fileKey f = k) (files st) = Some r"
  shows "updateFileStatus fl k s st =
           (True,
            if s = Completed \<or> s = Failed
            then snd (fs_unlink fl (path_join (FILE_MEDIA_DIR st) (fileName r))
                        (saveState fl (st\<lparr>files := assign_status k s (files st)\<rparr>)))
            else saveState fl (st\<lparr>files := assign_status k s (files st)\<rparr>))"
  using assms
  by (simp add: updateFileStatus_def Let_def getFilePath_def find_assign_status)

lemma assign_status_idem [simp]:
  "assign_status k s (assign_status k s fs) = assign_status k s fs"
  by (induction fs) simp_all

lemma fileName_assign_status [simp]:
  "map fileName (assign_status k s fs) = map fileName fs"
  by (induction fs) simp_all

lemma find_key_in_set:
  "find (\<lambda>f. fileKey f = k) fs = Some r \<Longrightarrow> r \<in> set fs \<and> fileKey r = k"
  by (induction fs) (auto split: if_splits)

lemma no_pending_with_key:
  assumes "distinct (map fileKey fs)" and "find (\<lambda>f. fileKey f = k) fs = Some r"
    and "status r \<noteq> Pending"
  shows "\<forall>x \<in> set (filter (\<lambda>file. status file = Pending) fs). fileKey x \<noteq> k"
proof
  fix x assume x: "x \<in> set (filter (\<lambda>file. status file = Pending) fs)"
  show "fileKey x \<noteq> k"
  proof
    assume "fileKey x = k"
    with x assms(1) have "find (\<lambda>f. fileKey f = k) fs = Some x"
      using find_distinct_key [of fs x] by auto
    with assms(2) have "x = r" by simp
    with x assms(3) show False by simp
  qed
qed

lemma files_loadState:
  "files (loadState fl st) =
     (if read_fault fl then files st
      else case data_file st of None \<Rightarrow> files st | Some rs \<Rightarrow> rs)"
  by (simp add: loadState_def split: option.splits)

lemma addFile_moved:
  assumes "fsys st src = Some b" and "\<not> rename_fault fl"
  shows "addFile fl uuid now src name st =
     (Inr (),
      saveState fl
        ((log_io
            (FsRename src (path_join (FILE_MEDIA_DIR st) (if name = [] then uuid else name)) True)
            (st\<lparr>fsys := ((fsys st)(src := None))
                    (path_join (FILE_MEDIA_DIR st) (if name = [] then uuid else name) \<mapsto> b)\<rparr>))
         \<lparr>files := files st @
                  [\<lparr>fileKey = uuid, fileName = (if name = [] then uuid else name),
                    status = Pending, timestamp = now\<rparr>]\<rparr>))"
  using assms by (simp add: addFile_def fs_rename_def Let_def)

lemma addFile_not_moved:
  assumes "fsys st src = None \<or> rename_fault fl"
  shows "addFile fl uuid now src name st =
     (Inr (),
      log_io (FsRename src (path_join (FILE_MEDIA_DIR st) (if name = [] then uuid else name)) False)
        st)"
  using assms by (auto simp: addFile_def fs_rename_def Let_def split: option.splits)

lemma find_append_fresh:
  "find P xs = None \<Longrightarrow> find P (xs @ ys) = find P ys"
  by (induction xs) (auto split: if_splits)

lemma find_key_None:
  "k \<notin> fileKey ` set fs \<Longrightarrow> find (\<lambda>f. fileKey f = k) fs = None"
  by (induction fs) auto

lemma fetches_append [simp]: "fetches (xs @ ys) = fetches xs + fetches ys"
  by (simp add: fetches_def)

lemma replies_append [simp]: "replies (xs @ ys) = replies xs + replies ys"
  by (simp add: replies_def)

lemma fetches_single [simp]: "fetches [e] = (if is_fetch e then 1 else 0)"
  by (simp add: fetches_def)

lemma replies_single [simp]: "replies [e] = (if is_reply e then 1 else 0)"
  by (simp add: replies_def)

lemma processFileMessage_store [simp]:
  "files (processFileMessage env c m k n rt st) = files st"
  "data_file (processFileMessage env c m k n rt st) = data_file st"
  "processedEvents (processFileMessage env c m k n rt st) = processedEvents st"
  "timers (processFileMessage env c m k n rt st) = timers st"
  by (simp_all add: processFileMessage_def replyToUser_def Let_def
        split: fetch_result.splits option.splits)

lemma processFileMessage_counts [simp]:
  "fetches (trace (processFileMessage env c m k n rt st)) = fetches (trace st) + 1"
  "replies (trace (processFileMessage env c m k n rt st)) = replies (trace st) + 2"
  by (simp_all add: processFileMessage_def replyToUser_def Let_def fetches_def replies_def
        split: fetch_result.splits option.splits)


lemma send_message_store [simp]:
  "files (snd (send_message env c t st)) = files st"
  "data_file (snd (send_message env c t st)) = data_file st"
  "processedEvents (snd (send_message env c t st)) = processedEvents st"
  "timers (snd (send_message env c t st)) = timers st"
  by (simp_all add: send_message_def)

lemma handler_try_cases:
  "(\<exists>m. handler_try env ev st = (Some m, st)) \<or>
   (\<exists>k n rt. handler_try env ev st =
       (None, processFileMessage env (chat_id ev) (message_id ev) k n rt st)) \<or>
   (\<exists>t. handler_try env ev st = send_message env (chat_id ev) t st)"
proof (cases "content ev")
  case (Malformed m)
  then show ?thesis by (simp add: handler_try_def)
next
  case (Parsed pc)
  show ?thesis
  proof (cases "message_type ev = ''image''")
    case True
    with Parsed show ?thesis
      by (cases "falsy (image_key pc)") (auto simp: handler_try_def Let_def)
  next
    case notImage: False
    show ?thesis
    proof (cases "message_type ev = ''media''")
      case True
      with Parsed notImage show ?thesis
        by (cases "falsy (file_key pc)") (auto simp: handler_try_def Let_def)
    next
      case notMedia: False
      show ?thesis
      proof (cases "message_type ev = ''file''")
        case True
        with Parsed notImage notMedia show ?thesis
          by (cases "falsy (file_key pc)") (auto simp: handler_try_def Let_def)
      next
        case False
        with Parsed notImage notMedia
        have "handler_try env ev st =
                send_message env (chat_id ev) (Hello (text_field pc)) st"
          by (simp add: handler_try_def)
        then show ?thesis by blast
      qed
    qed
  qed
qed


lemma handler_body_store [simp]:
  "files (snd (handler_body env ev st)) = files st"
  "data_file (snd (handler_body env ev st)) = data_file st"
  "processedEvents (snd (handler_body env ev st)) = processedEvents st"
  "timers (snd (handler_body env ev st)) = timers st"
  using handler_try_cases [of env ev st]
  by (auto simp: handler_body_def send_message_def split: option.splits)

lemma handler_body_file_bearing:
  assumes "file_bearing ev"
  shows "fst (handler_body env ev st) \<and>
         fetches (trace (snd (handler_body env ev st))) = fetches (trace st) + 1 \<and>
         replies (trace (snd (handler_body env ev st))) = replies (trace st) + 2"
proof -
  have "\<exists>k n rt. handler_try env ev st =
          (None, processFileMessage env (chat_id ev) (message_id ev) k n rt st)"
  proof (cases "content ev")
    case (Malformed m)
    with assms show ?thesis by (simp add: file_bearing_def)
  next
    case (Parsed pc)
    show ?thesis
    proof (cases "message_type ev = ''image''")
      case True
      with Parsed assms show ?thesis
        by (auto simp: file_bearing_def handler_try_def Let_def)
    next
      case notImage: False
      show ?thesis
      proof (cases "message_type ev = ''media''")
        case True
        with Parsed notImage assms show ?thesis
          by (auto simp: file_bearing_def handler_try_def Let_def)
      next
        case False
        with Parsed notImage assms show ?thesis
          by (auto simp: file_bearing_def handler_try_def Let_def split: if_splits)
      qed
    qed
  qed
  then show ?thesis
    by (auto simp: handler_body_def)
qed


lemma run_timers_fields [simp]:
  "trace (run_timers now st) = trace st"
  "files (run_timers now st) = files st"
  "data_file (run_timers now st) = data_file st"
  "timers (run_timers now st) = filter (\<lambda>t. now < fst t) (timers st)"
  "processedEvents (run_timers now st) =
     processedEvents st - snd ` set (filter (\<lambda>t. fst t \<le> now) (timers st))"
  by (simp_all add: run_timers_def)

lemma on_message_fresh:
  assumes "event_id ev = Some e" and "e \<noteq> []" and "e \<notin> processedEvents st"
  shows "on_message env now ev st =
           handler_body env ev
             (st\<lparr>processedEvents := insert e (processedEvents st),
                 timers := timers st @ [(now + EVENT_EXPIRY_MS, e)]\<rparr>)"
  using assms by (simp add: on_message_def isEventProcessed_def)

lemma on_message_duplicate:
  assumes "event_id ev = Some e" and "e \<noteq> []" and "e \<in> processedEvents st"
  shows "on_message env now ev st = (True, st)"
  using assms by (simp add: on_message_def isEventProcessed_def)

lemma on_message_no_id:
  "falsy (event_id ev) \<Longrightarrow> on_message env now ev st = handler_body env ev st"
  by (simp add: on_message_def)

lemma deliver_keeps_store:
  "files (snd (deliver env now ev st)) = files st \<and>
   data_file (snd (deliver env now ev st)) = data_file st"
  by (simp add: deliver_def on_message_def isEventProcessed_def split: prod.splits)

lemma timers_match_initial:
  "processedEvents st = {} \<Longrightarrow> timers st = [] \<Longrightarrow> timers_match st"
  by (simp add: timers_match_def)

lemma timers_match_run_timers:
  assumes "timers_match st"
  shows "timers_match (run_timers now st)"
proof -
  have d: "distinct (map snd (timers st))" and s: "snd ` set (timers st) = processedEvents st"
    using assms by (simp_all add: timers_match_def)
  have inj: "inj_on snd (set (timers st))"
    using d by (simp add: distinct_map)
  have "snd ` set (filter (\<lambda>t. now < fst t) (timers st)) =
        snd ` set (timers st) - snd ` set (filter (\<lambda>t. fst t \<le> now) (timers st))"
  proof (intro set_eqI iffI)
    fix e assume "e \<in> snd ` set (filter (\<lambda>t. now < fst t) (timers st))"
    then obtain d1 where 1: "(d1, e) \<in> set (timers st)" "now < d1" by auto
    have "e \<notin> snd ` set (filter (\<lambda>t. fst t \<le> now) (timers st))"
    proof
      assume "e \<in> snd ` set (filter (\<lambda>t. fst t \<le> now) (timers st))"
      then obtain d2 where 2: "(d2, e) \<in> set (timers st)" "d2 \<le> now" by auto
      from inj 1(1) 2(1) have "(d1, e) = (d2, e)"
        using inj_onD [of snd "set (timers st)" "(d1, e)" "(d2, e)"] by simp
      with 1(2) 2(2) show False by simp
    qed
    with 1(1) show "e \<in> snd ` set (timers st) - snd ` set (filter (\<lambda>t. fst t \<le> now) (timers st))"
      by force
  next
    fix e assume "e \<in> snd ` set (timers st) - snd ` set (filter (\<lambda>t. fst t \<le> now) (timers st))"
    then obtain d1 where 1: "(d1, e) \<in> set (timers st)"
      and 2: "e \<notin> snd ` set (filter (\<lambda>t. fst t \<le> now) (timers st))" by auto
    from 1 2 have "now < d1" by force
    with 1 show "e \<in> snd ` set (filter (\<lambda>t. now < fst t) (timers st))" by force
  qed
  then show ?thesis
    using d s by (simp add: timers_match_def distinct_map_filter)
qed

lemma timers_match_deliver:
  assumes "timers_match st"
  shows "timers_match (snd (deliver env now ev st))"
proof -
  have m: "timers_match (run_timers now st)"
    by (rule timers_match_run_timers [OF assms])
  show ?thesis
  proof (cases "falsy (event_id ev)")
    case True
    with m show ?thesis
      by (simp add: deliver_def on_message_no_id timers_match_def)
  next
    case False
    then obtain e where e: "event_id ev = Some e" "e \<noteq> []"
      by (cases "event_id ev") auto
    show ?thesis
    proof (cases "e \<in> processedEvents (run_timers now st)")
      case True
      with m show ?thesis
        by (simp add: deliver_def on_message_duplicate [OF e])
    next
      case False
      with m show ?thesis
        by (auto simp: deliver_def on_message_fresh [OF e] timers_match_def)
    qed
  qed
qed

lemma filter_swap: "filter P (filter Q xs) = filter Q (filter P xs)"
  by (induction xs) simp_all

lemma id_in_due_timers:
  "e \<in> snd ` set (filter Q ts) \<longleftrightarrow> filter Q (filter (\<lambda>t. snd t = e) ts) \<noteq> []"
  by (force simp: filter_empty_conv)

lemma unseen_iff:
  "unseen e st \<longleftrightarrow> e \<notin> processedEvents st \<and> e \<notin> snd ` set (timers st)"
  by (force simp: unseen_def filter_empty_conv)

lemma timers_of_id_run_timers:
  "filter (\<lambda>t. snd t = e) (timers (run_timers now st)) =
     filter (\<lambda>t. now < fst t) (filter (\<lambda>t. snd t = e) (timers st))"
  unfolding run_timers_fields by (rule filter_swap)

lemma processed_run_timers:
  "e \<in> processedEvents (run_timers now st) \<longleftrightarrow>
     e \<in> processedEvents st \<and>
     filter (\<lambda>t. fst t \<le> now) (filter (\<lambda>t. snd t = e) (timers st)) = []"
  unfolding run_timers_fields using id_in_due_timers [of e "\<lambda>t. fst t \<le> now" "timers st"]
  by blast

lemma unseen_run_timers:
  assumes "unseen e st"
  shows "unseen e (run_timers now st)"
proof -
  have "filter (\<lambda>t. snd t = e) (timers st) = []" and "e \<notin> processedEvents st"
    using assms by (simp_all add: unseen_def)
  then show ?thesis
    unfolding unseen_def timers_of_id_run_timers processed_run_timers by simp
qed

lemma seen_run_timers_before:
  assumes "seen_until e d st" and "now < d"
  shows "seen_until e d (run_timers now st)"
proof -
  have "filter (\<lambda>t. snd t = e) (timers st) = [(d, e)]" and "e \<in> processedEvents st"
    using assms(1) by (simp_all add: seen_until_def)
  then show ?thesis
    unfolding seen_until_def timers_of_id_run_timers processed_run_timers
    using assms(2) by simp
qed

lemma seen_run_timers_after:
  assumes "seen_until e d st" and "d \<le> now"
  shows "unseen e (run_timers now st)"
proof -
  have "filter (\<lambda>t. snd t = e) (timers st) = [(d, e)]"
    using assms(1) by (simp add: seen_until_def)
  then show ?thesis
    unfolding unseen_def timers_of_id_run_timers processed_run_timers
    using assms(2) by simp
qed

lemma processFileMessage_trace:
  "\<exists>tr. trace (processFileMessage env c m k n rt st) = trace st @ tr"
  by (simp add: processFileMessage_def replyToUser_def Let_def
        split: fetch_result.splits option.splits)

lemma handler_body_trace:
  "\<exists>tr. trace (snd (handler_body env ev st)) = trace st @ tr"
  using handler_try_cases [of env ev st] processFileMessage_trace [of env "chat_id ev" "message_id ev" _ _ _ st]
  by (auto simp: handler_body_def send_message_def split: option.splits)


lemma trace_deliver:
  "\<exists>tr. trace (snd (deliver env now ev st)) = trace st @ tr"
proof (cases "falsy (event_id ev)")
  case True
  then show ?thesis
    using handler_body_trace [of env ev "run_timers now st"]
    by (simp add: deliver_def on_message_no_id)
next
  case False
  then obtain e where e: "event_id ev = Some e" "e \<noteq> []"
    by (cases "event_id ev") auto
  show ?thesis
  proof (cases "e \<in> processedEvents (run_timers now st)")
    case True
    then show ?thesis
      by (simp add: deliver_def on_message_duplicate [OF e])
  next
    case False
    then show ?thesis
      using handler_body_trace [of env ev
          "(run_timers now st)\<lparr>processedEvents := insert e (processedEvents (run_timers now st)),
             timers := timers (run_timers now st) @ [(now + EVENT_EXPIRY_MS, e)]\<rparr>"]
      by (simp add: deliver_def on_message_fresh [OF e])
  qed
qed

lemma on_message_other:
  assumes "event_id ev \<noteq> Some e"
  shows "(e \<in> processedEvents (snd (on_message env now ev st)) \<longleftrightarrow> e \<in> processedEvents st) \<and>
         filter (\<lambda>t. snd t = e) (timers (snd (on_message env now ev st)))
           = filter (\<lambda>t. snd t = e) (timers st)"
proof (cases "falsy (event_id ev)")
  case True
  then show ?thesis by (simp add: on_message_no_id)
next
  case False
  then obtain e' where e': "event_id ev = Some e'" "e' \<noteq> []"
    by (cases "event_id ev") auto
  with assms have ne: "e' \<noteq> e" by simp
  show ?thesis
  proof (cases "e' \<in> processedEvents st")
    case True
    then show ?thesis by (simp add: on_message_duplicate [OF e'])
  next
    case False
    then show ?thesis using ne by (auto simp: on_message_fresh [OF e'])
  qed
qed

lemma deliver_fresh:
  assumes u: "unseen e (run_timers now st)" and id: "event_id ev = Some e" "e \<noteq> []"
  shows "\<not> fst (isEventProcessed now e (run_timers now st))"
    and "seen_until e (now + EVENT_EXPIRY_MS) (snd (deliver env now ev st))"
    and "file_bearing ev \<Longrightarrow> fetches (effects env now ev st) = 1"
    and "file_bearing ev \<Longrightarrow> replies (effects env now ev st) = 2"
proof -
  let ?a = "run_timers now st"
  let ?b = "?a\<lparr>processedEvents := insert e (processedEvents ?a),
               timers := timers ?a @ [(now + EVENT_EXPIRY_MS, e)]\<rparr>"
  from u have out: "e \<notin> processedEvents ?a"
    and none: "filter (\<lambda>t. snd t = e) (timers ?a) = []"
    by (simp_all add: unseen_def)
  show "\<not> fst (isEventProcessed now e ?a)"
    using out by (simp add: isEventProcessed_def)
  have d: "deliver env now ev st = handler_body env ev ?b"
    unfolding deliver_def by (rule on_message_fresh [OF id out])
  show "seen_until e (now + EVENT_EXPIRY_MS) (snd (deliver env now ev st))"
    using none by (simp add: d seen_until_def)
  obtain tr where tr: "trace (snd (handler_body env ev ?b)) = trace ?b @ tr"
    using handler_body_trace by blast
  have tb: "trace ?b = trace st" by simp
  have eff: "effects env now ev st = tr"
    unfolding effects_def d tr tb by simp
  show "fetches (effects env now ev st) = 1" if "file_bearing ev"
    using handler_body_file_bearing [OF that, of env ?b] unfolding eff tr tb by simp
  show "replies (effects env now ev st) = 2" if "file_bearing ev"
    using handler_body_file_bearing [OF that, of env ?b] unfolding eff tr tb by simp
qed

lemma deliver_duplicate:
  assumes "seen_until e d st" and "now < d" and id: "event_id ev = Some e" "e \<noteq> []"
  shows "fst (isEventProcessed now e (run_timers now st))"
    and "deliver env now ev st = (True, run_timers now st)"
    and "effects env now ev st = []"
    and "seen_until e d (snd (deliver env now ev st))"
proof -
  have s: "seen_until e d (run_timers now st)"
    by (rule seen_run_timers_before [OF assms(1,2)])
  then have mem: "e \<in> processedEvents (run_timers now st)"
    by (simp add: seen_until_def)
  show "fst (isEventProcessed now e (run_timers now st))"
    using mem by (simp add: isEventProcessed_def)
  show d: "deliver env now ev st = (True, run_timers now st)"
    unfolding deliver_def by (rule on_message_duplicate [OF id mem])
  show "effects env now ev st = []"
    by (simp add: effects_def d)
  show "seen_until e d (snd (deliver env now ev st))"
    using s by (simp add: d)
qed

lemma deliver_within_window:
  assumes "seen_until e d st" and "now < d" and "e \<noteq> []"
  shows "seen_until e d (snd (deliver env now ev st))"
proof (cases "event_id ev = Some e")
  case True
  then show ?thesis by (rule deliver_duplicate(4) [OF assms(1,2) _ assms(3)])
next
  case False
  have "seen_until e d (run_timers now st)"
    by (rule seen_run_timers_before [OF assms(1,2)])
  then show ?thesis
    using on_message_other [OF False, of env now "run_timers now st"]
    by (simp add: deliver_def seen_until_def)
qed

lemma deliver_other_id:
  assumes "unseen e st \<or> seen_until e d st" and "event_id ev \<noteq> Some e"
  shows "unseen e (snd (deliver env now ev st)) \<or> seen_until e d (snd (deliver env now ev st))"
proof -
  have "unseen e (run_timers now st) \<or> seen_until e d (run_timers now st)"
    using assms(1) unseen_run_timers [of e st now]
      seen_run_timers_before [of e d st now] seen_run_timers_after [of e d st now]
    by (cases "now < d") auto
  then show ?thesis
    using on_message_other [OF assms(2), of env now "run_timers now st"]
    by (simp add: deliver_def seen_until_def unseen_def)
qed

lemma run_append: "run (ds @ ds') st = run ds' (run ds st)"
  by (induction ds arbitrary: st) auto

lemma effects_of_append:
  "effects_of e (ds @ ds') st = effects_of e ds st @ effects_of e ds' (run ds st)"
  by (induction ds arbitrary: st) auto

lemma run_within_window:
  assumes "seen_until e d st" and "e \<noteq> []" and "\<forall>x \<in> set ds. fst (snd x) < d"
  shows "seen_until e d (run ds st) \<and> effects_of e ds st = []"
  using assms
proof (induction ds arbitrary: st)
  case Nil
  then show ?case by simp
next
  case (Cons x ds)
  obtain env now ev where x: "x = (env, now, ev)" by (cases x)
  from Cons.prems(3) x have now: "now < d" and rest: "\<forall>x \<in> set ds. fst (snd x) < d"
    by simp_all
  have s: "seen_until e d (snd (deliver env now ev st))"
    by (rule deliver_within_window [OF Cons.prems(1) now Cons.prems(2)])
  have eff: "event_id ev = Some e \<Longrightarrow> effects env now ev st = []"
    by (rule deliver_duplicate(3) [OF Cons.prems(1) now _ Cons.prems(2)])
  show ?case
    using Cons.IH [OF s Cons.prems(2) rest] eff by (simp add: x)
qed

lemma run_other_ids:
  assumes "unseen e st \<or> seen_until e d st" and "\<forall>x \<in> set ds. event_id (snd (snd x)) \<noteq> Some e"
  shows "(unseen e (run ds st) \<or> seen_until e d (run ds st)) \<and> effects_of e ds st = []"
  using assms
proof (induction ds arbitrary: st)
  case Nil
  then show ?case by simp
next
  case (Cons x ds)
  obtain env now ev where x: "x = (env, now, ev)" by (cases x)
  from Cons.prems(2) x have other: "event_id ev \<noteq> Some e"
    and rest: "\<forall>x \<in> set ds. event_id (snd (snd x)) \<noteq> Some e"
    by simp_all
  have k: "unseen e (snd (deliver env now ev st)) \<or> seen_until e d (snd (deliver env now ev st))"
    by (rule deliver_other_id [OF Cons.prems(1) other])
  show ?case
    using Cons.IH [OF k rest] other by (simp add: x)
qed


section \<open>Claims\<close>

text \<open>
  C1, on the code. The handler of a file-bearing event that passes the duplicate check and
  whose resource is fetched and staged sends its two replies and stops: the staged file
  stays in the temporary directory, \<^verbatim>\<open>addFile\<close> is not called, the record array and
  the data file are as before (for every delivery: \<open>deliver_keeps_store\<close>), and
  \<^verbatim>\<open>getPendingFiles\<close> shows no record for the event.
\<close>

theorem processFileMessage_creates_no_record:
  "fst (deliver demo_platform 0 demo_event demo_fresh) \<and>
   trace (snd (deliver demo_platform 0 demo_event demo_fresh))
     = [SendReply ''chat1'' (AckReceived ''photo.jpg'') True,
        FetchResource ''msg1'' ''abc123'' RImage True,
        FsWriteTemp ''temp_uploads/photo.jpg'' True,
        SendReply ''chat1'' (DownloadedOk ''photo.jpg'') True] \<and>
   fsys (snd (deliver demo_platform 0 demo_event demo_fresh)) ''temp_uploads/photo.jpg''
     = Some ''JPEG'' \<and>
   files (snd (deliver demo_platform 0 demo_event demo_fresh)) = [] \<and>
   data_file (snd (deliver demo_platform 0 demo_event demo_fresh)) = None \<and>
   fst (getPendingFiles no_faults (snd (deliver demo_platform 0 demo_event demo_fresh))) = []"
proof -
  have a0: "run_timers 0 demo_fresh = demo_fresh"
    by (simp add: run_timers_def demo_fresh_def)
  have d: "deliver demo_platform 0 demo_event demo_fresh =
      handler_body demo_platform demo_event
        (demo_fresh\<lparr>processedEvents := insert ''ev1'' (processedEvents demo_fresh),
                    timers := timers demo_fresh @ [(0 + EVENT_EXPIRY_MS, ''ev1'')]\<rparr>)"
    unfolding deliver_def a0
    by (rule on_message_fresh) (simp_all add: demo_event_def demo_fresh_def)
  have t: "handler_try demo_platform demo_event st =
      (None, processFileMessage demo_platform ''chat1'' ''msg1'' ''abc123'' ''photo.jpg'' RImage st)"
    for st
    by (simp add: handler_try_def demo_event_def)
  have e: "deliver demo_platform 0 demo_event demo_fresh =
      (True, processFileMessage demo_platform ''chat1'' ''msg1'' ''abc123'' ''photo.jpg'' RImage
               (demo_fresh\<lparr>processedEvents := insert ''ev1'' (processedEvents demo_fresh),
                           timers := timers demo_fresh @ [(0 + EVENT_EXPIRY_MS, ''ev1'')]\<rparr>))"
    by (simp add: d handler_body_def t)
  show ?thesis
    unfolding e
    by (simp add: processFileMessage_def replyToUser_def demo_platform_def path_join_def
          getPendingFiles_def loadState_def demo_fresh_def no_faults_def Let_def)
qed


text \<open>
  C2, as amended. File keys being unique in the store, for every Pending record \<open>r\<close> the
  call \<^verbatim>\<open>updateFileStatus(r.fileKey, Completed)\<close> returns true and leaves the record with
  status Completed in memory; the blob at the record's path is gone provided the unlink
  did not fail; and no record with that key is in the result of \<^verbatim>\<open>getPendingFiles\<close>
  provided the durable rewrite did not fail.
\<close>

theorem updateFileStatus_completed:
  assumes "r \<in> set (files st)" and "status r = Pending"
    and "distinct (map fileKey (files st))"
  shows "fst (updateFileStatus fl (fileKey r) Completed st) \<and>
         find (\<lambda>f. fileKey f = fileKey r)
           (files (snd (updateFileStatus fl (fileKey r) Completed st)))
           = Some (r\<lparr>status := Completed\<rparr>) \<and>
         (\<not> unlink_fault fl \<longrightarrow>
            fsys (snd (updateFileStatus fl (fileKey r) Completed st))
              (path_join (FILE_MEDIA_DIR st) (fileName r)) = None) \<and>
         (\<not> write_fault fl \<longrightarrow>
            (\<forall>x \<in> set (fst (getPendingFiles fl' (snd (updateFileStatus fl (fileKey r) Completed st)))).
               fileKey x \<noteq> fileKey r))"
proof -
  let ?k = "fileKey r"
  let ?st1 = "snd (updateFileStatus fl ?k Completed st)"
  have found: "find (\<lambda>f. fileKey f = ?k) (files st) = Some r"
    using assms(1,3) by (simp add: find_distinct_key)
  have upd: "updateFileStatus fl ?k Completed st =
      (True, snd (fs_unlink fl (path_join (FILE_MEDIA_DIR st) (fileName r))
                    (saveState fl (st\<lparr>files := assign_status ?k Completed (files st)\<rparr>))))"
    by (simp add: updateFileStatus_found [OF found])
  have files1: "files ?st1 = assign_status ?k Completed (files st)"
    by (simp add: upd)
  have find1: "find (\<lambda>f. fileKey f = ?k) (files ?st1) = Some (r\<lparr>status := Completed\<rparr>)"
    by (simp add: files1 find_assign_status found)
  have dist1: "distinct (map fileKey (files ?st1))"
    using assms(3) by (simp add: files1)
  have gone: "\<not> unlink_fault fl \<Longrightarrow>
      fsys ?st1 (path_join (FILE_MEDIA_DIR st) (fileName r)) = None"
    by (simp add: upd fsys_fs_unlink)
  have disk: "\<not> write_fault fl \<Longrightarrow> data_file ?st1 = Some (files ?st1)"
    by (simp add: upd)
  have reload: "\<not> write_fault fl \<Longrightarrow>
      fst (getPendingFiles fl' ?st1) = filter (\<lambda>file. status file = Pending) (files ?st1)"
    using disk by (simp add: getPendingFiles_def Let_def files_loadState)
  have absent: "\<not> write_fault fl \<Longrightarrow>
      \<forall>x \<in> set (fst (getPendingFiles fl' ?st1)). fileKey x \<noteq> ?k"
    using no_pending_with_key [OF dist1 find1] reload by simp
  have ok: "fst (updateFileStatus fl ?k Completed st)"
    by (simp add: upd)
  show ?thesis
    using ok find1 gone absent by blast
qed

theorem updateFileStatus_completed_witness:
  "demo_record \<in> set (files demo_app) \<and> status demo_record = Pending \<and>
   distinct (map fileKey (files demo_app)) \<and>
   \<not> unlink_fault no_faults \<and> \<not> write_fault no_faults \<and>
   fst (updateFileStatus no_faults ''k1'' Completed demo_app) \<and>
   files (snd (updateFileStatus no_faults ''k1'' Completed demo_app))
     = [demo_record\<lparr>status := Completed\<rparr>] \<and>
   fsys (snd (updateFileStatus no_faults ''k1'' Completed demo_app)) ''media/photo.jpg'' = None \<and>
   fst (getPendingFiles no_faults (snd (updateFileStatus no_faults ''k1'' Completed demo_app))) = []"
proof -
  have h1: "demo_record \<in> set (files demo_app)" by (simp add: demo_app_def)
  have h2: "status demo_record = Pending" by (simp add: demo_record_def)
  have h3: "distinct (map fileKey (files demo_app))" by (simp add: demo_app_def)
  have ev: "updateFileStatus no_faults ''k1'' Completed demo_app =
      (True, demo_app\<lparr>files := [demo_record\<lparr>status := Completed\<rparr>],
                       data_file := Some [demo_record\<lparr>status := Completed\<rparr>],
                       fsys := Map.empty,
                       trace := [FsWriteData True, FsUnlink ''media/photo.jpg'' True]\<rparr>)"
    by (simp add: updateFileStatus_def getFilePath_def saveState_def fs_unlink_def log_io_def
          path_join_def demo_app_def demo_record_def no_faults_def)
  show ?thesis
    using h1 h2 h3 updateFileStatus_completed [OF h1 h2 h3, of no_faults no_faults]
    by (simp add: ev getPendingFiles_def loadState_def log_io_def)
       (simp add: no_faults_def demo_record_def)
qed

text \<open>
  C2 as stated fails: with an unlink that fails the call still returns true and the blob
  is still there; with a durable rewrite that fails the call still returns true and the
  reload of \<^verbatim>\<open>getPendingFiles\<close> brings the record back as Pending.
\<close>

theorem updateFileStatus_completed_counterexample:
  "demo_record \<in> set (files demo_app) \<and> status demo_record = Pending \<and>
   fst (updateFileStatus (no_faults\<lparr>unlink_fault := True\<rparr>) (fileKey demo_record) Completed demo_app) \<and>
   getFilePath (fileKey demo_record)
     (snd (updateFileStatus (no_faults\<lparr>unlink_fault := True\<rparr>) (fileKey demo_record) Completed demo_app))
     = Some ''media/photo.jpg'' \<and>
   fsys (snd (updateFileStatus (no_faults\<lparr>unlink_fault := True\<rparr>) (fileKey demo_record) Completed demo_app))
     ''media/photo.jpg'' = Some ''JPEG'' \<and>
   fst (updateFileStatus (no_faults\<lparr>write_fault := True\<rparr>) (fileKey demo_record) Completed demo_app) \<and>
   fst (getPendingFiles no_faults
          (snd (updateFileStatus (no_faults\<lparr>write_fault := True\<rparr>) (fileKey demo_record) Completed demo_app)))
     = [demo_record]"
  by (simp add: updateFileStatus_def getPendingFiles_def getFilePath_def saveState_def
        loadState_def fs_unlink_def log_io_def path_join_def demo_app_def demo_record_def
        no_faults_def)

text \<open>
  C3, as amended. A status request with a non-empty key of an existing record is applied
  with whichever status it carries, Pending and Expired included: the controller answers
  with success and the matched record takes that status. For Pending and Expired the only
  effect besides is the durable rewrite; no blob is touched.
\<close>

theorem updateStatus_applies_any_status:
  assumes "find (\<lambda>f. fileKey f = k) (files st) = Some r" and "k \<noteq> []"
  shows "fst (updateStatus fl \<lparr>body_fileKey = Some k, body_status = Some s\<rparr> st) = Inr (k, s) \<and>
         find (\<lambda>f. fileKey f = k)
           (files (snd (updateStatus fl \<lparr>body_fileKey = Some k, body_status = Some s\<rparr> st)))
           = Some (r\<lparr>status := s\<rparr>) \<and>
         (s = Pending \<or> s = Expired \<longrightarrow>
            fsys (snd (updateStatus fl \<lparr>body_fileKey = Some k, body_status = Some s\<rparr> st))
              = fsys st \<and>
            trace (snd (updateStatus fl \<lparr>body_fileKey = Some k, body_status = Some s\<rparr> st))
              = trace st @ [FsWriteData (\<not> write_fault fl)])"
  using assms
  by (auto simp: updateStatus_def updateFileStatus_found find_assign_status)

theorem updateStatus_applies_any_status_witness:
  "find (\<lambda>f. fileKey f = ''k1'') (files demo_app) = Some demo_record \<and> ''k1'' \<noteq> [] \<and>
   fst (updateStatus no_faults \<lparr>body_fileKey = Some ''k1'', body_status = Some Pending\<rparr> demo_app)
     = Inr (''k1'', Pending) \<and>
   find (\<lambda>f. fileKey f = ''k1'')
     (files (snd (updateStatus no_faults
                    \<lparr>body_fileKey = Some ''k1'', body_status = Some Pending\<rparr> demo_app)))
     = Some demo_record \<and>
   fsys (snd (updateStatus no_faults
                \<lparr>body_fileKey = Some ''k1'', body_status = Some Pending\<rparr> demo_app))
     ''media/photo.jpg'' = Some ''JPEG'' \<and>
   trace (snd (updateStatus no_faults
                 \<lparr>body_fileKey = Some ''k1'', body_status = Some Pending\<rparr> demo_app))
     = [FsWriteData True]"
proof -
  have h1: "find (\<lambda>f. fileKey f = ''k1'') (files demo_app) = Some demo_record"
    by (simp add: demo_app_def demo_record_def)
  have h2: "''k1'' \<noteq> []" by simp
  show ?thesis
    using h1 updateStatus_applies_any_status [OF h1 h2, of no_faults Pending]
    by (simp add: demo_app_def demo_record_def no_faults_def)
qed

text \<open>
  C3 as stated fails: a request with status Expired moves a Pending record to Expired.
\<close>

theorem updateStatus_expired_counterexample:
  "fst (updateStatus no_faults \<lparr>body_fileKey = Some ''k1'', body_status = Some Expired\<rparr> demo_app)
     = Inr (''k1'', Expired) \<and>
   files (snd (updateStatus no_faults \<lparr>body_fileKey = Some ''k1'', body_status = Some Expired\<rparr>
                 demo_app))
     = [demo_record\<lparr>status := Expired\<rparr>] \<and>
   status demo_record = Pending"
  by (simp add: updateStatus_def updateFileStatus_def saveState_def log_io_def
        demo_app_def demo_record_def no_faults_def)

text \<open>
  C4, as amended. For a key whose record exists and whose blob is absent, \<^verbatim>\<open>downloadFile\<close>
  throws the internal-server-error exception of its \<^verbatim>\<open>catch\<close>; the not-found exception
  is thrown for a key with no record only.
\<close>

theorem downloadFile_cleaned_blob:
  assumes "find (\<lambda>f. fileKey f = k) (files st) = Some r"
    and "fsys st (path_join (FILE_MEDIA_DIR st) (fileName r)) = None"
  shows "fst (downloadFile fl k st)
           = Inl (InternalServerErrorException ''Failed to read file from disk.'') \<and>
         (find (\<lambda>f. fileKey f = k') (files st) = None \<longrightarrow>
            fst (downloadFile fl k' st) = Inl (NotFoundException k'))"
  using assms by (simp add: downloadFile_def getFilePath_def)

theorem downloadFile_cleaned_blob_witness:
  "find (\<lambda>f. fileKey f = ''k1'') (files (demo_app\<lparr>fsys := Map.empty\<rparr>)) = Some demo_record \<and>
   fsys (demo_app\<lparr>fsys := Map.empty\<rparr>) ''media/photo.jpg'' = None \<and>
   find (\<lambda>f. fileKey f = ''k2'') (files (demo_app\<lparr>fsys := Map.empty\<rparr>)) = None \<and>
   fst (downloadFile no_faults ''k1'' (demo_app\<lparr>fsys := Map.empty\<rparr>))
     = Inl (InternalServerErrorException ''Failed to read file from disk.'') \<and>
   fst (downloadFile no_faults ''k2'' (demo_app\<lparr>fsys := Map.empty\<rparr>))
     = Inl (NotFoundException ''k2'')"
proof -
  have h1: "find (\<lambda>f. fileKey f = ''k1'') (files (demo_app\<lparr>fsys := Map.empty\<rparr>))
              = Some demo_record"
    by (simp add: demo_app_def demo_record_def)
  have h2: "fsys (demo_app\<lparr>fsys := Map.empty\<rparr>)
              (path_join (FILE_MEDIA_DIR (demo_app\<lparr>fsys := Map.empty\<rparr>)) (fileName demo_record)) = None"
    by simp
  show ?thesis
    using h1 downloadFile_cleaned_blob [OF h1 h2, of no_faults "''k2''"]
    by (simp add: demo_app_def demo_record_def)
qed

text \<open>
  C4 as stated fails: after the transition to Completed has removed the blob, the download
  for that key ends in the internal-server-error exception, while an unknown key gets the
  not-found exception.
\<close>

theorem downloadFile_cleaned_blob_counterexample:
  "fst (updateFileStatus no_faults ''k1'' Completed demo_app) \<and>
   fst (downloadFile no_faults ''k1'' (snd (updateFileStatus no_faults ''k1'' Completed demo_app)))
     = Inl (InternalServerErrorException ''Failed to read file from disk.'') \<and>
   fst (downloadFile no_faults ''k2'' (snd (updateFileStatus no_faults ''k1'' Completed demo_app)))
     = Inl (NotFoundException ''k2'')"
  by (simp add: downloadFile_def updateFileStatus_def getFilePath_def saveState_def
        fs_unlink_def log_io_def path_join_def demo_app_def demo_record_def no_faults_def)

text \<open>
  C5, on the code. A move that fails (here: the source path does not exist) is caught
  inside \<^verbatim>\<open>addFile\<close>: the call resolves with the same result as a call whose move
  succeeds, so its caller cannot tell the failure. The rest of the claim holds: no record
  is added, the data file is not rewritten, and the only call made is the failed rename
  (for every failed move: \<open>addFile_not_moved\<close>).
\<close>

theorem addFile_move_failure_unobservable:
  "fsys demo_staged ''temp_uploads/dog.png'' = None \<and>
   fst (addFile no_faults ''k2'' 7 ''temp_uploads/dog.png'' ''dog.png'' demo_staged) = Inr () \<and>
   fst (addFile no_faults ''k2'' 7 ''temp_uploads/cat.png'' ''cat.png'' demo_staged) = Inr () \<and>
   files (snd (addFile no_faults ''k2'' 7 ''temp_uploads/dog.png'' ''dog.png'' demo_staged))
     = [demo_record] \<and>
   data_file (snd (addFile no_faults ''k2'' 7 ''temp_uploads/dog.png'' ''dog.png'' demo_staged))
     = Some [demo_record] \<and>
   trace (snd (addFile no_faults ''k2'' 7 ''temp_uploads/dog.png'' ''dog.png'' demo_staged))
     = [FsRename ''temp_uploads/dog.png'' ''media/dog.png'' False]"
  by (simp add: addFile_def fs_rename_def saveState_def log_io_def path_join_def Let_def
        demo_staged_def demo_app_def demo_record_def no_faults_def)

text \<open>
  C6, as amended. In \<^verbatim>\<open>addFile\<close> the rename into the managed directory comes first and
  the durable write follows it (and is not attempted when the rename fails); in
  \<^verbatim>\<open>updateFileStatus\<close> with Completed or Failed the durable write comes first and the
  deletion of the blob follows it.
\<close>

theorem blob_operation_and_durable_write_order:
  "(fsys st src \<noteq> None \<and> \<not> rename_fault fl \<longrightarrow>
      trace (snd (addFile fl uuid now src name st)) =
        trace st @
          [FsRename src (path_join (FILE_MEDIA_DIR st) (if name = [] then uuid else name)) True,
           FsWriteData (\<not> write_fault fl)]) \<and>
   (fsys st src = None \<or> rename_fault fl \<longrightarrow>
      trace (snd (addFile fl uuid now src name st)) =
        trace st @
          [FsRename src (path_join (FILE_MEDIA_DIR st) (if name = [] then uuid else name)) False]) \<and>
   (find (\<lambda>f. fileKey f = k) (files st) = Some r \<and> (s = Completed \<or> s = Failed) \<longrightarrow>
      trace (snd (updateFileStatus fl k s st)) =
        trace st @
          [FsWriteData (\<not> write_fault fl),
           FsUnlink (path_join (FILE_MEDIA_DIR st) (fileName r))
             (fsys st (path_join (FILE_MEDIA_DIR st) (fileName r)) \<noteq> None \<and> \<not> unlink_fault fl)])"
proof -
  have a: "fsys st src \<noteq> None \<and> \<not> rename_fault fl \<Longrightarrow>
      trace (snd (addFile fl uuid now src name st)) =
        trace st @
          [FsRename src (path_join (FILE_MEDIA_DIR st) (if name = [] then uuid else name)) True,
           FsWriteData (\<not> write_fault fl)]"
    by (auto simp: addFile_moved)
  have b: "fsys st src = None \<or> rename_fault fl \<Longrightarrow>
      trace (snd (addFile fl uuid now src name st)) =
        trace st @
          [FsRename src (path_join (FILE_MEDIA_DIR st) (if name = [] then uuid else name)) False]"
    by (simp add: addFile_not_moved)
  have c: "find (\<lambda>f. fileKey f = k) (files st) = Some r \<and> (s = Completed \<or> s = Failed) \<Longrightarrow>
      trace (snd (updateFileStatus fl k s st)) =
        trace st @
          [FsWriteData (\<not> write_fault fl),
           FsUnlink (path_join (FILE_MEDIA_DIR st) (fileName r))
             (fsys st (path_join (FILE_MEDIA_DIR st) (fileName r)) \<noteq> None \<and> \<not> unlink_fault fl)]"
    by (auto simp: updateFileStatus_found trace_fs_unlink)
  show ?thesis using a b c by blast
qed

theorem blob_operation_and_durable_write_order_witness:
  "fsys demo_staged ''temp_uploads/cat.png'' \<noteq> None \<and> \<not> rename_fault no_faults \<and>
   trace (snd (addFile no_faults ''k2'' 7 ''temp_uploads/cat.png'' ''cat.png'' demo_staged))
     = [FsRename ''temp_uploads/cat.png'' ''media/cat.png'' True, FsWriteData True] \<and>
   fsys demo_staged ''temp_uploads/dog.png'' = None \<and>
   trace (snd (addFile no_faults ''k2'' 7 ''temp_uploads/dog.png'' ''dog.png'' demo_staged))
     = [FsRename ''temp_uploads/dog.png'' ''media/dog.png'' False] \<and>
   find (\<lambda>f. fileKey f = ''k1'') (files demo_staged) = Some demo_record \<and>
   trace (snd (updateFileStatus no_faults ''k1'' Failed demo_staged))
     = [FsWriteData True, FsUnlink ''media/photo.jpg'' True]"
proof -
  have h: "find (\<lambda>f. fileKey f = ''k1'') (files demo_staged) = Some demo_record"
    by (simp add: demo_staged_def demo_app_def demo_record_def)
  show ?thesis
    using h blob_operation_and_durable_write_order
      [of demo_staged "''temp_uploads/cat.png''" no_faults "''k2''" 7 "''cat.png''"
          "''k1''" demo_record Failed]
      blob_operation_and_durable_write_order
      [of demo_staged "''temp_uploads/dog.png''" no_faults "''k2''" 7 "''dog.png''"
          "''k1''" demo_record Failed]
    by (simp add: demo_staged_def demo_app_def demo_record_def no_faults_def path_join_def)
qed

text \<open>
  C6 as stated fails for \<^verbatim>\<open>updateFileStatus\<close>: the write of the data file is the first
  call of the trace, the unlink the second.
\<close>

theorem write_before_unlink_counterexample:
  "trace demo_app = [] \<and>
   trace (snd (updateFileStatus no_faults ''k1'' Completed demo_app))
     = [FsWriteData True, FsUnlink ''media/photo.jpg'' True]"
  by (simp add: updateFileStatus_def getFilePath_def saveState_def
        fs_unlink_def log_io_def path_join_def demo_app_def demo_record_def no_faults_def)

text \<open>
  C7, as amended. A file-bearing event with a non-empty event id \<open>e\<close> that is not yet in
  the set (and has no pending timer) is delivered at \<open>t1\<close>; any deliveries \<open>ds\<close> of any
  events follow within the expiry window. The first check returns false. After every such
  history a check of \<open>e\<close> at a time \<open>t2\<close> within the window returns true, the delivery
  does nothing but fire the due timers, and the one timer of \<open>e\<close> is still the one due at
  \<open>t1 + EVENT_EXPIRY_MS\<close>; over the whole run the deliveries carrying \<open>e\<close> have made one
  fetch and two replies. When deliveries \<open>ds'\<close> of other ids follow, at any times, the check
  of \<open>e\<close> at a time \<open>t3\<close> after the window returns false, and the deliveries carrying \<open>e\<close>
  have then made two fetches and four replies. In a state the service reaches, an id
  outside the set has no pending timer (\<open>timers_match\<close> holds at the start and after every
  delivery).
\<close>

theorem dedup_within_window:
  assumes id: "event_id ev = Some e" "e \<noteq> []"
    and fb: "file_bearing ev"
    and fresh: "e \<notin> processedEvents st0" "e \<notin> snd ` set (timers st0)"
    and within: "\<forall>x \<in> set ds. fst (snd x) < t1 + EVENT_EXPIRY_MS"
    and again: "event_id ev' = Some e" "t2 < t1 + EVENT_EXPIRY_MS"
    and others: "\<forall>x \<in> set ds'. event_id (snd (snd x)) \<noteq> Some e"
    and after: "t1 + EVENT_EXPIRY_MS < t3"
  shows "\<not> fst (isEventProcessed t1 e (run_timers t1 st0)) \<and>
         fst (isEventProcessed t2 e (run_timers t2 (run ((env1, t1, ev) # ds) st0))) \<and>
         deliver env2 t2 ev' (run ((env1, t1, ev) # ds) st0)
           = (True, run_timers t2 (run ((env1, t1, ev) # ds) st0)) \<and>
         filter (\<lambda>t. snd t = e)
           (timers (snd (deliver env2 t2 ev' (run ((env1, t1, ev) # ds) st0))))
           = [(t1 + EVENT_EXPIRY_MS, e)] \<and>
         fetches (effects_of e ((env1, t1, ev) # ds @ [(env2, t2, ev')]) st0) = 1 \<and>
         replies (effects_of e ((env1, t1, ev) # ds @ [(env2, t2, ev')]) st0) = 2 \<and>
         \<not> fst (isEventProcessed t3 e
                 (run_timers t3 (run ((env1, t1, ev) # ds @ ds') st0))) \<and>
         fetches (effects_of e ((env1, t1, ev) # ds @ ds' @ [(env3, t3, ev)]) st0) = 2 \<and>
         replies (effects_of e ((env1, t1, ev) # ds @ ds' @ [(env3, t3, ev)]) st0) = 4"
proof -
  let ?d = "t1 + EVENT_EXPIRY_MS"
  define st1 where "st1 = snd (deliver env1 t1 ev st0)"
  define stn where "stn = run ds st1"
  define stm where "stm = run ds' stn"
  have "unseen e st0"
    using fresh unseen_iff [of e st0] by blast
  then have u0: "unseen e (run_timers t1 st0)"
    by (rule unseen_run_timers)
  have check1: "\<not> fst (isEventProcessed t1 e (run_timers t1 st0))"
    by (rule deliver_fresh(1) [OF u0 id])
  have seen1: "seen_until e ?d st1"
    unfolding st1_def by (rule deliver_fresh(2) [OF u0 id])
  have eff1: "fetches (effects env1 t1 ev st0) = 1" "replies (effects env1 t1 ev st0) = 2"
    by (rule deliver_fresh(3) [OF u0 id fb], rule deliver_fresh(4) [OF u0 id fb])
  have seenn: "seen_until e ?d stn" and effn: "effects_of e ds st1 = []"
    using run_within_window [OF seen1 id(2) within] by (simp_all add: stn_def)
  have check2: "fst (isEventProcessed t2 e (run_timers t2 stn))"
    by (rule deliver_duplicate(1) [OF seenn again(2) again(1) id(2)])
  have d2: "deliver env2 t2 ev' stn = (True, run_timers t2 stn)"
    by (rule deliver_duplicate(2) [OF seenn again(2) again(1) id(2)])
  have eff2: "effects env2 t2 ev' stn = []"
    by (rule deliver_duplicate(3) [OF seenn again(2) again(1) id(2)])
  have tm2: "filter (\<lambda>t. snd t = e) (timers (snd (deliver env2 t2 ev' stn))) = [(?d, e)]"
    using deliver_duplicate(4) [OF seenn again(2) again(1) id(2), of env2]
    by (simp add: seen_until_def)
  have km: "unseen e stm \<or> seen_until e ?d stm" and effm: "effects_of e ds' stn = []"
    using run_other_ids [OF _ others, of stn ?d] seenn by (simp_all add: stm_def)
  have u3: "unseen e (run_timers t3 stm)"
    using km after unseen_run_timers [of e stm t3] seen_run_timers_after [of e ?d stm t3]
    by auto
  have check3: "\<not> fst (isEventProcessed t3 e (run_timers t3 stm))"
    by (rule deliver_fresh(1) [OF u3 id])
  have eff3: "fetches (effects env3 t3 ev stm) = 1" "replies (effects env3 t3 ev stm) = 2"
    by (rule deliver_fresh(3) [OF u3 id fb], rule deliver_fresh(4) [OF u3 id fb])
  have runn: "run ((env1, t1, ev) # ds) st0 = stn"
    by (simp add: stn_def st1_def)
  have runm: "run ((env1, t1, ev) # ds @ ds') st0 = stm"
    by (simp add: stm_def stn_def st1_def run_append)
  have tot2: "effects_of e ((env1, t1, ev) # ds @ [(env2, t2, ev')]) st0
                = effects env1 t1 ev st0"
    using id(1) again(1) effn eff2
    by (simp add: effects_of_append st1_def [symmetric] stn_def [symmetric])
  have tot3: "effects_of e ((env1, t1, ev) # ds @ ds' @ [(env3, t3, ev)]) st0
                = effects env1 t1 ev st0 @ effects env3 t3 ev stm"
    using id(1) effn effm
    by (simp add: effects_of_append st1_def [symmetric] stn_def [symmetric]
          stm_def [symmetric])
  show ?thesis
    unfolding runn runm tot2 tot3
    using check1 check2 d2 tm2 eff1 check3 eff3 by simp
qed

theorem dedup_within_window_witness:
  "event_id demo_event = Some ''ev1'' \<and> ''ev1'' \<noteq> [] \<and> file_bearing demo_event \<and>
   ''ev1'' \<notin> processedEvents demo_fresh \<and> ''ev1'' \<notin> snd ` set (timers demo_fresh) \<and>
   (1000::nat) < 0 + EVENT_EXPIRY_MS \<and> (2000::nat) < 0 + EVENT_EXPIRY_MS \<and>
   event_id demo_other \<noteq> Some ''ev1'' \<and> 0 + EVENT_EXPIRY_MS < 700000 \<and>
   \<not> fst (isEventProcessed 0 ''ev1'' (run_timers 0 demo_fresh)) \<and>
   fst (isEventProcessed 2000 ''ev1''
          (run_timers 2000
             (run [(demo_platform, 0, demo_event), (demo_platform, 1000, demo_other)]
                demo_fresh))) \<and>
   deliver demo_platform 2000 demo_event
     (run [(demo_platform, 0, demo_event), (demo_platform, 1000, demo_other)] demo_fresh)
     = (True, run_timers 2000
                (run [(demo_platform, 0, demo_event), (demo_platform, 1000, demo_other)]
                   demo_fresh)) \<and>
   filter (\<lambda>t. snd t = ''ev1'')
     (timers (snd (deliver demo_platform 2000 demo_event
        (run [(demo_platform, 0, demo_event), (demo_platform, 1000, demo_other)] demo_fresh))))
     = [(0 + EVENT_EXPIRY_MS, ''ev1'')] \<and>
   fetches (effects_of ''ev1''
      [(demo_platform, 0, demo_event), (demo_platform, 1000, demo_other),
       (demo_platform, 2000, demo_event)] demo_fresh) = 1 \<and>
   replies (effects_of ''ev1''
      [(demo_platform, 0, demo_event), (demo_platform, 1000, demo_other),
       (demo_platform, 2000, demo_event)] demo_fresh) = 2 \<and>
   \<not> fst (isEventProcessed 700000 ''ev1''
           (run_timers 700000
              (run [(demo_platform, 0, demo_event), (demo_platform, 1000, demo_other),
                    (demo_platform, 650000, demo_other)] demo_fresh))) \<and>
   fetches (effects_of ''ev1''
      [(demo_platform, 0, demo_event), (demo_platform, 1000, demo_other),
       (demo_platform, 650000, demo_other), (demo_platform, 700000, demo_event)]
      demo_fresh) = 2 \<and>
   replies (effects_of ''ev1''
      [(demo_platform, 0, demo_event), (demo_platform, 1000, demo_other),
       (demo_platform, 650000, demo_other), (demo_platform, 700000, demo_event)]
      demo_fresh) = 4"
proof -
  have h1: "event_id demo_event = Some ''ev1''" by (simp add: demo_event_def)
  have h2: "''ev1'' \<noteq> []" by simp
  have h3: "file_bearing demo_event" by (simp add: file_bearing_def demo_event_def)
  have h4: "''ev1'' \<notin> processedEvents demo_fresh" by (simp add: demo_fresh_def)
  have h5: "''ev1'' \<notin> snd ` set (timers demo_fresh)" by (simp add: demo_fresh_def)
  have a: "(1000::nat) < 0 + EVENT_EXPIRY_MS" by (simp add: EVENT_EXPIRY_MS_def)
  have h7: "(2000::nat) < 0 + EVENT_EXPIRY_MS" by (simp add: EVENT_EXPIRY_MS_def)
  have b: "event_id demo_other \<noteq> Some ''ev1''" by (simp add: demo_other_def)
  have h9: "0 + EVENT_EXPIRY_MS < 700000" by (simp add: EVENT_EXPIRY_MS_def)
  have h6: "\<forall>x \<in> set [(demo_platform, 1000::nat, demo_other)]. fst (snd x) < 0 + EVENT_EXPIRY_MS"
    using a by simp
  have h8: "\<forall>x \<in> set [(demo_platform, 650000::nat, demo_other)].
              event_id (snd (snd x)) \<noteq> Some ''ev1''"
    using b by simp
  have c: "[(demo_platform, 0, demo_event), (demo_platform, 1000, demo_other)] @
             [(demo_platform, 2000, demo_event)] =
           [(demo_platform, 0, demo_event), (demo_platform, 1000, demo_other),
            (demo_platform, 2000::nat, demo_event)]"
    "[(demo_platform, 0, demo_event), (demo_platform, 1000, demo_other)] @
       [(demo_platform, 650000, demo_other)] =
     [(demo_platform, 0, demo_event), (demo_platform, 1000, demo_other),
      (demo_platform, 650000::nat, demo_other)]"
    by simp_all
  note t = dedup_within_window [OF h1 h2 h3 h4 h5 h6 h1 h7 h8 h9,
      of demo_platform demo_platform demo_platform, simplified append.simps]
  show ?thesis
    using h1 h2 h3 h4 h5 a h7 b h9 t by blast
qed

text \<open>
  C7 as stated fails for the empty event id, which the guard of the handler exempts from
  the check: delivered twice within the window, its pipeline runs twice.
\<close>

theorem empty_event_id_counterexample:
  "event_id (demo_event\<lparr>event_id := Some []\<rparr>) = Some [] \<and>
   (0::nat) \<le> 1000 \<and> 1000 < 0 + EVENT_EXPIRY_MS \<and>
   fetches (trace demo_fresh) = 0 \<and>
   fetches (trace (snd (deliver demo_platform 1000 (demo_event\<lparr>event_id := Some []\<rparr>)
                    (snd (deliver demo_platform 0 (demo_event\<lparr>event_id := Some []\<rparr>)
                            demo_fresh))))) = 2 \<and>
   replies (trace (snd (deliver demo_platform 1000 (demo_event\<lparr>event_id := Some []\<rparr>)
                    (snd (deliver demo_platform 0 (demo_event\<lparr>event_id := Some []\<rparr>)
                            demo_fresh))))) = 4"
proof -
  have fb: "file_bearing (demo_event\<lparr>event_id := Some []\<rparr>)"
    by (simp add: file_bearing_def demo_event_def)
  have noid: "falsy (event_id (demo_event\<lparr>event_id := Some []\<rparr>))"
    by simp
  have step: "fetches (trace (snd (deliver env now (demo_event\<lparr>event_id := Some []\<rparr>) st)))
                = fetches (trace st) + 1 \<and>
              replies (trace (snd (deliver env now (demo_event\<lparr>event_id := Some []\<rparr>) st)))
                = replies (trace st) + 2" for env now st
    using handler_body_file_bearing [OF fb, of env "run_timers now st"]
    by (simp add: deliver_def on_message_no_id [OF noid])
  have z: "fetches (trace demo_fresh) = 0" "replies (trace demo_fresh) = 0"
    by (simp_all add: demo_fresh_def fetches_def replies_def)
  show ?thesis
    by (simp add: step z EVENT_EXPIRY_MS_def)
qed




text \<open>
  C9, as amended. The path \<^verbatim>\<open>getFilePath\<close> returns is the media directory joined
  with the file name of the record matched by the key: two keys whose matched records have
  equal file names get the same path. Two successful \<^verbatim>\<open>addFile\<close> calls with the same
  non-empty declared name and distinct fresh keys append two Pending records with that
  name; both keys resolve to one path, and the blob there holds the bytes of the second
  move.
\<close>

theorem getFilePath_by_fileName:
  "(find (\<lambda>f. fileKey f = k1) (files st) = Some r1 \<and>
    find (\<lambda>f. fileKey f = k2) (files st) = Some r2 \<and> fileName r1 = fileName r2 \<longrightarrow>
      getFilePath k1 st = Some (path_join (FILE_MEDIA_DIR st) (fileName r1)) \<and>
      getFilePath k2 st = getFilePath k1 st) \<and>
   (name \<noteq> [] \<and> u1 \<noteq> u2 \<and> u1 \<notin> fileKey ` set (files st) \<and> u2 \<notin> fileKey ` set (files st) \<and>
    fsys st src1 = Some b1 \<and> \<not> rename_fault fl1 \<and>
    fsys (snd (addFile fl1 u1 t1 src1 name st)) src2 = Some b2 \<and> \<not> rename_fault fl2 \<longrightarrow>
      files (snd (addFile fl2 u2 t2 src2 name (snd (addFile fl1 u1 t1 src1 name st)))) =
        files st @ [\<lparr>fileKey = u1, fileName = name, status = Pending, timestamp = t1\<rparr>,
                    \<lparr>fileKey = u2, fileName = name, status = Pending, timestamp = t2\<rparr>] \<and>
      getFilePath u1 (snd (addFile fl2 u2 t2 src2 name (snd (addFile fl1 u1 t1 src1 name st))))
        = Some (path_join (FILE_MEDIA_DIR st) name) \<and>
      getFilePath u2 (snd (addFile fl2 u2 t2 src2 name (snd (addFile fl1 u1 t1 src1 name st))))
        = Some (path_join (FILE_MEDIA_DIR st) name) \<and>
      fsys (snd (addFile fl2 u2 t2 src2 name (snd (addFile fl1 u1 t1 src1 name st))))
        (path_join (FILE_MEDIA_DIR st) name) = Some b2)"
proof -
  have part1: "find (\<lambda>f. fileKey f = k1) (files st) = Some r1 \<and>
      find (\<lambda>f. fileKey f = k2) (files st) = Some r2 \<and> fileName r1 = fileName r2 \<Longrightarrow>
      getFilePath k1 st = Some (path_join (FILE_MEDIA_DIR st) (fileName r1)) \<and>
      getFilePath k2 st = getFilePath k1 st"
    by (simp add: getFilePath_def)
  have part2: "files (snd (addFile fl2 u2 t2 src2 name (snd (addFile fl1 u1 t1 src1 name st)))) =
        files st @ [\<lparr>fileKey = u1, fileName = name, status = Pending, timestamp = t1\<rparr>,
                    \<lparr>fileKey = u2, fileName = name, status = Pending, timestamp = t2\<rparr>] \<and>
      getFilePath u1 (snd (addFile fl2 u2 t2 src2 name (snd (addFile fl1 u1 t1 src1 name st))))
        = Some (path_join (FILE_MEDIA_DIR st) name) \<and>
      getFilePath u2 (snd (addFile fl2 u2 t2 src2 name (snd (addFile fl1 u1 t1 src1 name st))))
        = Some (path_join (FILE_MEDIA_DIR st) name) \<and>
      fsys (snd (addFile fl2 u2 t2 src2 name (snd (addFile fl1 u1 t1 src1 name st))))
        (path_join (FILE_MEDIA_DIR st) name) = Some b2"
    if h: "name \<noteq> []" "u1 \<noteq> u2" "u1 \<notin> fileKey ` set (files st)" "u2 \<notin> fileKey ` set (files st)"
      "fsys st src1 = Some b1" "\<not> rename_fault fl1"
      "fsys (snd (addFile fl1 u1 t1 src1 name st)) src2 = Some b2" "\<not> rename_fault fl2"
  proof -
    let ?st1 = "snd (addFile fl1 u1 t1 src1 name st)"
    let ?st2 = "snd (addFile fl2 u2 t2 src2 name ?st1)"
    have first: "files ?st1 = files st @ [\<lparr>fileKey = u1, fileName = name, status = Pending, timestamp = t1\<rparr>]"
      and media1: "FILE_MEDIA_DIR ?st1 = FILE_MEDIA_DIR st"
      using h(1) by (simp_all add: addFile_moved [OF h(5,6)])
    have second: "files ?st2 = files ?st1 @ [\<lparr>fileKey = u2, fileName = name, status = Pending, timestamp = t2\<rparr>]"
      and media2: "FILE_MEDIA_DIR ?st2 = FILE_MEDIA_DIR st"
      and blob2: "fsys ?st2 (path_join (FILE_MEDIA_DIR st) name) = Some b2"
      using h(1) by (simp_all add: addFile_moved [OF h(7,8)] media1)
    have files2: "files ?st2 = files st @ [\<lparr>fileKey = u1, fileName = name, status = Pending, timestamp = t1\<rparr>,
                    \<lparr>fileKey = u2, fileName = name, status = Pending, timestamp = t2\<rparr>]"
      by (simp add: second first)
    have p1: "getFilePath u1 ?st2 = Some (path_join (FILE_MEDIA_DIR st) name)"
      using h(3) by (simp add: getFilePath_def files2 media2 find_append_fresh find_key_None)
    have p2: "getFilePath u2 ?st2 = Some (path_join (FILE_MEDIA_DIR st) name)"
      using h(2,4) by (simp add: getFilePath_def files2 media2 find_append_fresh find_key_None)
    show ?thesis using files2 p1 p2 blob2 by blast
  qed
  show ?thesis using part1 part2 by blast
qed


theorem getFilePath_by_fileName_witness:
  "''pic.jpg'' \<noteq> [] \<and> ''k2'' \<noteq> ''k3'' \<and>
   ''k2'' \<notin> fileKey ` set (files demo_two_staged) \<and>
   ''k3'' \<notin> fileKey ` set (files demo_two_staged) \<and>
   fsys demo_two_staged ''temp_uploads/a'' = Some ''AAA'' \<and> \<not> rename_fault no_faults \<and>
   fsys (snd (addFile no_faults ''k2'' 7 ''temp_uploads/a'' ''pic.jpg'' demo_two_staged))
     ''temp_uploads/b'' = Some ''BBB'' \<and>
   files (snd (addFile no_faults ''k3'' 8 ''temp_uploads/b'' ''pic.jpg''
            (snd (addFile no_faults ''k2'' 7 ''temp_uploads/a'' ''pic.jpg'' demo_two_staged))))
     = [demo_record,
        \<lparr>fileKey = ''k2'', fileName = ''pic.jpg'', status = Pending, timestamp = 7\<rparr>,
        \<lparr>fileKey = ''k3'', fileName = ''pic.jpg'', status = Pending, timestamp = 8\<rparr>] \<and>
   find (\<lambda>f. fileKey f = ''k2'')
     (files (snd (addFile no_faults ''k3'' 8 ''temp_uploads/b'' ''pic.jpg''
            (snd (addFile no_faults ''k2'' 7 ''temp_uploads/a'' ''pic.jpg'' demo_two_staged)))))
     = Some \<lparr>fileKey = ''k2'', fileName = ''pic.jpg'', status = Pending, timestamp = 7\<rparr> \<and>
   find (\<lambda>f. fileKey f = ''k3'')
     (files (snd (addFile no_faults ''k3'' 8 ''temp_uploads/b'' ''pic.jpg''
            (snd (addFile no_faults ''k2'' 7 ''temp_uploads/a'' ''pic.jpg'' demo_two_staged)))))
     = Some \<lparr>fileKey = ''k3'', fileName = ''pic.jpg'', status = Pending, timestamp = 8\<rparr> \<and>
   getFilePath ''k2'' (snd (addFile no_faults ''k3'' 8 ''temp_uploads/b'' ''pic.jpg''
            (snd (addFile no_faults ''k2'' 7 ''temp_uploads/a'' ''pic.jpg'' demo_two_staged))))
     = Some ''media/pic.jpg'' \<and>
   getFilePath ''k3'' (snd (addFile no_faults ''k3'' 8 ''temp_uploads/b'' ''pic.jpg''
            (snd (addFile no_faults ''k2'' 7 ''temp_uploads/a'' ''pic.jpg'' demo_two_staged))))
     = Some ''media/pic.jpg'' \<and>
   fsys (snd (addFile no_faults ''k3'' 8 ''temp_uploads/b'' ''pic.jpg''
            (snd (addFile no_faults ''k2'' 7 ''temp_uploads/a'' ''pic.jpg'' demo_two_staged))))
     ''media/pic.jpg'' = Some ''BBB''"
proof -
  let ?st2 = "snd (addFile no_faults ''k3'' 8 ''temp_uploads/b'' ''pic.jpg''
            (snd (addFile no_faults ''k2'' 7 ''temp_uploads/a'' ''pic.jpg'' demo_two_staged)))"
  let ?r2 = "\<lparr>fileKey = ''k2'', fileName = ''pic.jpg'', status = Pending, timestamp = 7\<rparr>"
  let ?r3 = "\<lparr>fileKey = ''k3'', fileName = ''pic.jpg'', status = Pending, timestamp = 8\<rparr>"
  have h: "''pic.jpg'' \<noteq> [] \<and> ''k2'' \<noteq> ''k3'' \<and>
      ''k2'' \<notin> fileKey ` set (files demo_two_staged) \<and>
      ''k3'' \<notin> fileKey ` set (files demo_two_staged) \<and>
      fsys demo_two_staged ''temp_uploads/a'' = Some ''AAA'' \<and> \<not> rename_fault no_faults \<and>
      fsys (snd (addFile no_faults ''k2'' 7 ''temp_uploads/a'' ''pic.jpg'' demo_two_staged))
        ''temp_uploads/b'' = Some ''BBB''"
    by (simp add: addFile_def fs_rename_def saveState_def log_io_def path_join_def Let_def
          demo_two_staged_def demo_app_def demo_record_def no_faults_def)
  have added: "files ?st2 = [demo_record, ?r2, ?r3] \<and>
      getFilePath ''k2'' ?st2 = Some ''media/pic.jpg'' \<and>
      getFilePath ''k3'' ?st2 = Some ''media/pic.jpg'' \<and>
      fsys ?st2 ''media/pic.jpg'' = Some ''BBB''"
    using h getFilePath_by_fileName
      [of "''k2''" demo_two_staged demo_record "''k3''" demo_record "''pic.jpg''" "''k2''" "''k3''"
          "''temp_uploads/a''" "''AAA''" no_faults 7 "''temp_uploads/b''" "''BBB''" no_faults 8]
    by (simp add: demo_two_staged_def demo_app_def path_join_def)
  have found: "find (\<lambda>f. fileKey f = ''k2'') (files ?st2) = Some ?r2 \<and>
      find (\<lambda>f. fileKey f = ''k3'') (files ?st2) = Some ?r3"
    using added by (simp add: demo_record_def)
  have same: "getFilePath ''k3'' ?st2 = getFilePath ''k2'' ?st2"
    using found getFilePath_by_fileName [of "''k2''" ?st2 ?r2 "''k3''" ?r3]
    by simp
  show ?thesis
    using h added found same by simp
qed

text \<open>
  C9 as stated fails for the empty declared name: \<^verbatim>\<open>originalFileName || localFileKey\<close>
  names each blob by its own generated key, so both calls declare the same name and the
  two records have two paths and two blobs.
\<close>

theorem addFile_same_empty_name_counterexample:
  "getFilePath ''k2''
     (snd (addFile no_faults ''k3'' 8 ''temp_uploads/b'' ''''
        (snd (addFile no_faults ''k2'' 7 ''temp_uploads/a'' '''' demo_two_staged))))
     = Some ''media/k2'' \<and>
   getFilePath ''k3''
     (snd (addFile no_faults ''k3'' 8 ''temp_uploads/b'' ''''
        (snd (addFile no_faults ''k2'' 7 ''temp_uploads/a'' '''' demo_two_staged))))
     = Some ''media/k3'' \<and>
   fsys (snd (addFile no_faults ''k3'' 8 ''temp_uploads/b'' ''''
        (snd (addFile no_faults ''k2'' 7 ''temp_uploads/a'' '''' demo_two_staged))))
     ''media/k2'' = Some ''AAA'' \<and>
   fsys (snd (addFile no_faults ''k3'' 8 ''temp_uploads/b'' ''''
        (snd (addFile no_faults ''k2'' 7 ''temp_uploads/a'' '''' demo_two_staged))))
     ''media/k3'' = Some ''BBB''"
  by (simp add: addFile_def fs_rename_def saveState_def log_io_def path_join_def Let_def
        getFilePath_def demo_two_staged_def demo_app_def demo_record_def no_faults_def)

text \<open>
  C10. For an existing key, a durable rewrite that fails during \<^verbatim>\<open>updateFileStatus\<close> is
  swallowed: the call still returns true, the matched in-memory record carries the new
  status, the data file is left as it was, and for Completed or Failed the unlink of the
  blob is still attempted after the failed write (and removes the blob unless the unlink
  itself fails).
\<close>

theorem updateFileStatus_swallows_save_failure:
  assumes "find (\<lambda>f. fileKey f = k) (files st) = Some r" and "write_fault fl"
  shows "fst (updateFileStatus fl k s st) \<and>
         find (\<lambda>f. fileKey f = k) (files (snd (updateFileStatus fl k s st)))
           = Some (r\<lparr>status := s\<rparr>) \<and>
         data_file (snd (updateFileStatus fl k s st)) = data_file st \<and>
         (s = Completed \<or> s = Failed \<longrightarrow>
            trace (snd (updateFileStatus fl k s st)) =
              trace st @ [FsWriteData False,
                          FsUnlink (path_join (FILE_MEDIA_DIR st) (fileName r))
                            (fsys st (path_join (FILE_MEDIA_DIR st) (fileName r)) \<noteq> None
                             \<and> \<not> unlink_fault fl)] \<and>
            (\<not> unlink_fault fl \<longrightarrow>
               fsys (snd (updateFileStatus fl k s st))
                 (path_join (FILE_MEDIA_DIR st) (fileName r)) = None))"
  using assms
  by (simp add: updateFileStatus_found find_assign_status fsys_fs_unlink trace_fs_unlink)

theorem updateFileStatus_swallows_save_failure_witness:
  "find (\<lambda>f. fileKey f = ''k1'') (files demo_app) = Some demo_record \<and>
   write_fault (no_faults\<lparr>write_fault := True\<rparr>) \<and>
   fst (updateFileStatus (no_faults\<lparr>write_fault := True\<rparr>) ''k1'' Completed demo_app) \<and>
   find (\<lambda>f. fileKey f = ''k1'')
     (files (snd (updateFileStatus (no_faults\<lparr>write_fault := True\<rparr>) ''k1'' Completed demo_app)))
     = Some (demo_record\<lparr>status := Completed\<rparr>) \<and>
   data_file (snd (updateFileStatus (no_faults\<lparr>write_fault := True\<rparr>) ''k1'' Completed demo_app))
     = Some [demo_record] \<and>
   trace (snd (updateFileStatus (no_faults\<lparr>write_fault := True\<rparr>) ''k1'' Completed demo_app))
     = [FsWriteData False, FsUnlink ''media/photo.jpg'' True] \<and>
   fsys (snd (updateFileStatus (no_faults\<lparr>write_fault := True\<rparr>) ''k1'' Completed demo_app))
     ''media/photo.jpg'' = None"
proof -
  have h1: "find (\<lambda>f. fileKey f = ''k1'') (files demo_app) = Some demo_record"
    by (simp add: demo_app_def demo_record_def)
  have h2: "write_fault (no_faults\<lparr>write_fault := True\<rparr>)" by simp
  show ?thesis
    using h1 updateFileStatus_swallows_save_failure [OF h1 h2, of Completed]
    by (simp add: demo_app_def demo_record_def no_faults_def path_join_def)
qed

end
